theory Spec2Isabelle
  imports Main "HOL-Library.Word" "HOL-Library.Signed_Division"
begin

section \<open>Conventions of the embedding\<close>

text \<open>
  The development embeds the attribution side of the field-access profiler: the type tree
  (\<^verbatim>\<open>type_tree.h\<close>, \<^verbatim>\<open>type_tree.cc\<close>), the sample store
  (\<^verbatim>\<open>histogram_builder.cc\<close>), the field lookup of the debug index
  (\<^verbatim>\<open>dwarf_metadata_fetcher.cc\<close>) and the synthetic SwissMap backing array
  (\<^verbatim>\<open>type_tree_container_blueprints.h\<close>, \<^verbatim>\<open>type_resolver.cc\<close>).

  \<^item> \<^verbatim>\<open>int64_t\<close> values (sizes, offsets, multiplicities) are \<open>int\<close>. Signed overflow is
    undefined behaviour in C++; trees whose sizes leave the 64-bit range are outside the
    model. C++ division and remainder truncate towards zero: \<open>sdiv\<close> and \<open>smod\<close>.
  \<^item> \<^verbatim>\<open>uint64_t\<close> counters and histogram buckets are \<open>64 word\<close>: additions wrap.
  \<^item> \<^verbatim>\<open>uint32_t\<close> and \<^verbatim>\<open>uint64_t\<close> index arithmetic is \<open>nat\<close> with the wrap-around
    written out (\<open>mod 2 ^ 32\<close>, \<open>mod 2 ^ 64\<close>).
  \<^item> An \<^verbatim>\<open>absl::Status\<close> is a value of type \<open>Status\<close>; an \<^verbatim>\<open>absl::StatusOr<T>\<close> is
    \<open>Status + T\<close> with the error on the left.
  \<^item> A function that mutates the tree returns the new tree next to its result.
  \<^item> A result of type \<open>'a option\<close> is \<open>None\<close> exactly where the C++ execution has no
    defined result: a null pointer is dereferenced, \<^verbatim>\<open>back()\<close> or \<^verbatim>\<open>begin()\<close> is read on
    an empty container, an index is out of range, an integer is divided by zero, a
    32-bit \<^verbatim>\<open>int\<close> counter overflows, an exception leaves the function, or a loop never
    ends.
  \<^item> A vector throws \<^verbatim>\<open>std::length_error\<close> when it is asked for more than its
    \<^verbatim>\<open>max_size()\<close>; a request below that is served: running out of memory is outside
    the model.
\<close>

section \<open>Status values\<close>

datatype StatusCode =
  kOk | kInvalidArgument | kNotFound | kFailedPrecondition | kInternal | kUnimplemented

text \<open>The message of a status, one constructor per message text of the source.\<close>

datatype Message =
    NoMessage
  | HistogramSizeIsZero
  | GranularityMustBe8
  | HistogramNotMultiple nat nat
  | ThisTreeIsEmpty
  | OtherTreeIsNull
  | MergeNodeNotFound string
  | MergeIntoNodeWithChildren
  | MergeDistinctTrees string string
  | TypeTreeIsNull
  | InsertDifferentTrees string string
  | InvalidOffsetValue int
  | NoFieldInThisType
  | NoSuchField
  | MultipleFieldsWithOffset int
  | FailedToParseTemplate
  | BackingArraySizeMismatch int int

datatype Status = Status (code: StatusCode) (message: Message)

definition OkStatus :: Status where
  "OkStatus = Status kOk NoMessage"

definition ok :: "Status \<Rightarrow> bool" where
  "ok s \<longleftrightarrow> code s = kOk"

section \<open>The type tree\<close>

datatype TypeKind =
  UNKNOWN_TYPE | BUILTIN_TYPE | RECORD_TYPE | INDIRECTION_TYPE | ARRAY_TYPE | PADDING_TYPE
  | ENUM_TYPE

datatype ObjectKind = UNKNOWN | FIELD | ARRAY_ELEMENTS | PADDING | BASE

datatype AccessType = kAccess | kLlcMiss

record AccessCounters =
  total :: "64 word"
  access :: "64 word"
  llc_miss :: "64 word"

text \<open>The properties of an \<^verbatim>\<open>ObjectLayout\<close> message.\<close>

record Properties =
  name :: string
  type_name :: string
  offset_bits :: int
  size_bits :: int
  multiplicity :: int
  type_kind :: TypeKind
  kind :: ObjectKind

datatype ObjectLayout =
  ObjectLayout (properties: Properties) (subobjects: "ObjectLayout list")

text \<open>
  \<^verbatim>\<open>TypeTree::Node\<close>: the properties of its (childless) object layout, the global offset
  in bits, the counters, the owned children and the union flag.
\<close>

datatype Node =
  Node (object_layout: Properties) (global_offset: int) (access_counters: AccessCounters)
       (children: "Node list") (is_union: bool)

text \<open>
  \<^verbatim>\<open>TypeTree\<close>; the members are named without the trailing underscore of the source. A
  null \<^verbatim>\<open>root_\<close> is \<open>None\<close>.
\<close>

record TypeTree =
  root :: "Node option"
  root_type_name :: string
  from_container :: bool
  container_name :: string

definition zero_counters :: AccessCounters where
  "zero_counters = \<lparr>total = 0, access = 0, llc_miss = 0\<rparr>"

subsection \<open>Accessors of a node\<close>

definition NumChildren :: "Node \<Rightarrow> nat" where
  "NumChildren n = length (children n)"

definition GetGlobalOffsetBits :: "Node \<Rightarrow> int" where
  "GetGlobalOffsetBits n = global_offset n"

definition GetGlobalOffsetBytes :: "Node \<Rightarrow> int" where
  "GetGlobalOffsetBytes n = global_offset n sdiv 8"

definition GetTotalAccessCount :: "Node \<Rightarrow> 64 word" where
  "GetTotalAccessCount n = total (access_counters n)"

definition GetOffsetBits :: "Node \<Rightarrow> int" where
  "GetOffsetBits n = offset_bits (object_layout n)"

definition GetOffsetBytes :: "Node \<Rightarrow> int" where
  "GetOffsetBytes n = offset_bits (object_layout n) sdiv 8"

definition GetSizeBits :: "Node \<Rightarrow> int" where
  "GetSizeBits n = size_bits (object_layout n)"

definition GetSizeBytes :: "Node \<Rightarrow> int" where
  "GetSizeBytes n = size_bits (object_layout n) sdiv 8"

definition GetMultiplicity :: "Node \<Rightarrow> int" where
  "GetMultiplicity n = multiplicity (object_layout n)"

definition GetFullSizeBits :: "Node \<Rightarrow> int" where
  "GetFullSizeBits n = size_bits (object_layout n) * multiplicity (object_layout n)"

definition GetFullSizeBytes :: "Node \<Rightarrow> int" where
  "GetFullSizeBytes n =
     (size_bits (object_layout n) * multiplicity (object_layout n)) sdiv 8"

definition GetName :: "Node \<Rightarrow> string" where
  "GetName n = name (object_layout n)"

definition GetTypeName :: "Node \<Rightarrow> string" where
  "GetTypeName n = type_name (object_layout n)"

definition GetTypeKind :: "Node \<Rightarrow> TypeKind" where
  "GetTypeKind n = type_kind (object_layout n)"

definition IsPadding :: "Node \<Rightarrow> bool" where
  "IsPadding n \<longleftrightarrow> type_kind (object_layout n) = PADDING_TYPE"

definition IsUnion :: "Node \<Rightarrow> bool" where
  "IsUnion n \<longleftrightarrow> is_union n"

definition SetSizeBits :: "int \<Rightarrow> Node \<Rightarrow> Node" where
  "SetSizeBits s n =
     Node ((object_layout n)\<lparr>size_bits := s\<rparr>) (global_offset n) (access_counters n)
          (children n) (is_union n)"

subsection \<open>Accessors of a tree\<close>

definition Empty :: "TypeTree \<Rightarrow> bool" where
  "Empty t \<longleftrightarrow> root t = None"

definition Name :: "TypeTree \<Rightarrow> string" where
  "Name t = root_type_name t"

definition Root :: "TypeTree \<Rightarrow> Node option" where
  "Root t = root t"

section \<open>Histogram attribution\<close>

text \<open>\<^verbatim>\<open>Overlap(a1, a2, b1, b2)\<close> of \<^verbatim>\<open>type_tree.h\<close>.\<close>

definition Overlap :: "int \<Rightarrow> int \<Rightarrow> int \<Rightarrow> int \<Rightarrow> bool" where
  "Overlap a1 a2 b1 b2 \<longleftrightarrow> max a2 b2 - min a1 b1 < (a2 - a1) + (b2 - b1)"

text \<open>\<^verbatim>\<open>Node::IncrementAccessCount<AccessType>(count)\<close>, on the counters of the node.\<close>

definition IncrementAccessCount :: "AccessType \<Rightarrow> 64 word \<Rightarrow> AccessCounters \<Rightarrow> AccessCounters"
  where
  "IncrementAccessCount at count c =
     (case at of
        kAccess \<Rightarrow> c\<lparr>total := total c + count, access := access c + count\<rparr>
      | kLlcMiss \<Rightarrow> c\<lparr>total := total c + count, llc_miss := llc_miss c + count\<rparr>)"

text \<open>
  The first loop of the private \<^verbatim>\<open>Node::RecordAccess\<close>: one increment for every array
  element offset whose copy of the node overlaps the access.
\<close>

definition count_overlaps ::
  "nat \<Rightarrow> AccessType \<Rightarrow> int \<Rightarrow> 64 word \<Rightarrow> int list \<Rightarrow> Node \<Rightarrow> AccessCounters" where
  "count_overlaps g at offset_bytes count array_element_offsets n =
     fold (\<lambda>array_element_offset c.
             let base = GetGlobalOffsetBytes n + array_element_offset in
             if Overlap offset_bytes (offset_bytes + int g) base (base + GetFullSizeBytes n)
             then IncrementAccessCount at count c else c)
          array_element_offsets (access_counters n)"

text \<open>
  Between the two loops the source reserves room for the new offsets:
  \<^verbatim>\<open>reserve(array_element_offsets.size() * GetMultiplicity())\<close>. The product is taken in
  \<^verbatim>\<open>size_t\<close>, so a negative multiplicity becomes a request of nearly \<open>2 ^ 64\<close> elements.
  \<open>vector_max_size\<close> is \<^verbatim>\<open>max_size()\<close> of a \<^verbatim>\<open>std::vector<uint64_t>\<close>, a constant of the
  C++ library and not of the repository: the largest \<^verbatim>\<open>ptrdiff_t\<close> divided by the size of
  an element, as libstdc++ has it on a 64-bit target. A larger request is more than
  \<open>2 ^ 63\<close> bytes, which no allocator of a 64-bit target serves.
\<close>

definition vector_max_size :: nat where
  "vector_max_size = (2 ^ 63 - 1) div 8"

definition reserve_request :: "nat \<Rightarrow> int \<Rightarrow> nat" where
  "reserve_request offsets_size mult = (offsets_size * nat (mult mod 2 ^ 64)) mod 2 ^ 64"

text \<open>
  The second loop: every offset of the parent is repeated once per array element of this
  node, the elements of index \<open>i\<close> being appended in the order of the parent's offsets.
  The counter \<open>i\<close> is a 32-bit \<^verbatim>\<open>int\<close>: the loop is defined for a multiplicity below
  \<open>2 ^ 31\<close>, which \<open>RecordAccess_node\<close> tests before it uses this list.
\<close>

definition new_array_element_offsets :: "int list \<Rightarrow> Node \<Rightarrow> int list" where
  "new_array_element_offsets array_element_offsets n =
     concat (map (\<lambda>i. map (\<lambda>array_element_offset. array_element_offset + int i * GetSizeBytes n)
                           array_element_offsets)
                 [0..<nat (GetMultiplicity n)])"

text \<open>
  The private \<^verbatim>\<open>Node::RecordAccess<AccessGranularity, AccessType>(offset_bytes, count,
  array_element_offsets)\<close>. The result is the returned flag and the node with its updated
  subtree. \<^verbatim>\<open>array_element_offsets.back()\<close> is read first: an empty vector has no defined
  result. After the first loop, \<^verbatim>\<open>reserve\<close> throws on a request beyond
  \<open>vector_max_size\<close>, and the counter of the second loop overflows on a multiplicity of
  \<open>2 ^ 31\<close> or more: neither call returns. The offsets are \<^verbatim>\<open>uint64_t\<close> in the source
  and are converted back to \<^verbatim>\<open>int64_t\<close> at every call of \<^verbatim>\<open>Overlap\<close>; they are \<open>int\<close>
  here.
\<close>

fun RecordAccess_node ::
  "nat \<Rightarrow> AccessType \<Rightarrow> int \<Rightarrow> 64 word \<Rightarrow> int list \<Rightarrow> Node \<Rightarrow> (bool \<times> Node) option"
and RecordAccess_children ::
  "nat \<Rightarrow> AccessType \<Rightarrow> int \<Rightarrow> 64 word \<Rightarrow> int list \<Rightarrow> Node list \<Rightarrow> (bool \<times> Node list) option"
where
  "RecordAccess_node g at offset_bytes count array_element_offsets (Node ol go ac cs u) =
     (if array_element_offsets = [] then None
      else if \<not> Overlap offset_bytes (offset_bytes + int g)
                 (GetGlobalOffsetBytes (Node ol go ac cs u))
                 (GetGlobalOffsetBytes (Node ol go ac cs u) + last array_element_offsets
                    + GetFullSizeBytes (Node ol go ac cs u))
      then Some (False, Node ol go ac cs u)
      else if reserve_request (length array_element_offsets)
                (GetMultiplicity (Node ol go ac cs u)) > vector_max_size
      then None
      else if GetMultiplicity (Node ol go ac cs u) \<ge> 2 ^ 31 then None
      else
        (case RecordAccess_children g at offset_bytes count
                (new_array_element_offsets array_element_offsets (Node ol go ac cs u)) cs of
           None \<Rightarrow> None
         | Some (overlap_in_children, cs') \<Rightarrow>
             Some (cs = [] \<or> overlap_in_children,
                   Node ol go
                     (count_overlaps g at offset_bytes count array_element_offsets
                        (Node ol go ac cs u))
                     cs' u)))"
| "RecordAccess_children g at offset_bytes count array_element_offsets [] = Some (False, [])"
| "RecordAccess_children g at offset_bytes count array_element_offsets (c # cs) =
     (case RecordAccess_node g at offset_bytes count array_element_offsets c of
        None \<Rightarrow> None
      | Some (b, c') \<Rightarrow>
          (case RecordAccess_children g at offset_bytes count array_element_offsets cs of
             None \<Rightarrow> None
           | Some (bs, cs') \<Rightarrow> Some (b \<or> bs, c' # cs')))"

text \<open>The public \<^verbatim>\<open>Node::RecordAccess(offset_bytes, count)\<close>: the offset set is \<open>{0}\<close>.\<close>

definition Node_RecordAccess :: "nat \<Rightarrow> AccessType \<Rightarrow> int \<Rightarrow> 64 word \<Rightarrow> Node \<Rightarrow> (bool \<times> Node) option"
  where
  "Node_RecordAccess g at offset_bytes count n = RecordAccess_node g at offset_bytes count [0] n"

text \<open>
  \<^verbatim>\<open>TypeTree::RecordAccess(offset_bytes, count)\<close>. The remainder is taken only when the
  offset is strictly greater than the full size of the root; the remainder by a full size
  of zero has no defined result.
\<close>

definition RecordAccess ::
  "nat \<Rightarrow> AccessType \<Rightarrow> int \<Rightarrow> 64 word \<Rightarrow> TypeTree \<Rightarrow> (bool \<times> TypeTree) option" where
  "RecordAccess g at offset_bytes count t =
     (case root t of
        None \<Rightarrow> None
      | Some r \<Rightarrow>
          if offset_bytes > GetFullSizeBytes r \<and> GetFullSizeBytes r = 0 then None
          else
            (let offset_bytes' =
                   (if offset_bytes > GetFullSizeBytes r
                    then offset_bytes smod GetFullSizeBytes r else offset_bytes)
             in case Node_RecordAccess g at offset_bytes' count r of
                  None \<Rightarrow> None
                | Some (b, r') \<Rightarrow> Some (b, t\<lparr>root := Some r'\<rparr>)))"

text \<open>
  \<^verbatim>\<open>TypeTree::CollapseHistogram<AccessGranularity>(histogram, collapsed_size)\<close>. The sizes
  are \<^verbatim>\<open>uint32_t\<close>. Bucket \<open>j\<close> of the result accumulates the buckets
  \<open>i * new_histogram_size + j\<close>; that index stays below \<open>histogram_size\<close>, so neither the
  \<^verbatim>\<open>uint32_t\<close> product nor the read goes out of range.
\<close>

definition CollapseHistogram :: "nat \<Rightarrow> 64 word list \<Rightarrow> int \<Rightarrow> 64 word list option" where
  "CollapseHistogram g histogram collapsed_size =
     (if g = 0 then None
      else
        (let histogram_size = length histogram mod 2 ^ 32;
             new_histogram_size = nat ((1 + (collapsed_size - 1) sdiv int g) mod 2 ^ 32)
         in if new_histogram_size = 0 then None
            else
              (let collapse_num = histogram_size div new_histogram_size
               in Some (fold (\<lambda>i collapsed_histogram.
                                fold (\<lambda>j collapsed_histogram.
                                        collapsed_histogram
                                          [j := collapsed_histogram ! j
                                                + histogram ! (i * new_histogram_size + j)])
                                     [0..<new_histogram_size] collapsed_histogram)
                             [0..<collapse_num] (replicate new_histogram_size 0)))))"

text \<open>
  The recording loop of \<^verbatim>\<open>RecordAccessHistogram\<close>: bucket \<open>i\<close> is recorded at the
  \<^verbatim>\<open>uint32_t\<close> offset \<open>i * AccessGranularity\<close>; the flag returned by the root is dropped.
\<close>

fun record_buckets ::
  "nat \<Rightarrow> AccessType \<Rightarrow> nat \<Rightarrow> 64 word list \<Rightarrow> Node \<Rightarrow> Node option" where
  "record_buckets g at i [] r = Some r"
| "record_buckets g at i (h # hs) r =
     (case Node_RecordAccess g at (int ((i * g) mod 2 ^ 32)) h r of
        None \<Rightarrow> None
      | Some (b, r') \<Rightarrow> record_buckets g at (Suc i) hs r')"

text \<open>
  \<^verbatim>\<open>TypeTree::RecordAccessHistogram<AccessGranularity, AccessType>(histogram)\<close>. The
  result is the status and the tree as the call leaves it. The comparisons between the
  \<^verbatim>\<open>uint64_t\<close> size of the histogram and the \<^verbatim>\<open>int64_t\<close> size of the root are unsigned.
  The loop counter is a \<^verbatim>\<open>uint32_t\<close>: on a histogram of \<open>2 ^ 32\<close> buckets or more the
  loop never ends. The source also overwrites the vector of the caller with the collapsed
  histogram; the caller-facing overload that takes a pointer and a length passes a copy.
\<close>

definition RecordAccessHistogram ::
  "nat \<Rightarrow> AccessType \<Rightarrow> 64 word list \<Rightarrow> TypeTree \<Rightarrow> (Status \<times> TypeTree) option" where
  "RecordAccessHistogram g at histogram t =
     (let old_histogram_size = length histogram mod 2 ^ 32;
          histogram_size_in_bytes = (length histogram * g) mod 2 ^ 64
      in if histogram_size_in_bytes = 0
         then Some (Status kInvalidArgument HistogramSizeIsZero, t)
         else if g \<noteq> 8 then Some (Status kUnimplemented GranularityMustBe8, t)
         else
           (case root t of
              None \<Rightarrow> None
            | Some r \<Rightarrow>
                (let full = GetFullSizeBytes r;
                     collapsed =
                       (if int histogram_size_in_bytes > full mod 2 ^ 64
                           \<and> int histogram_size_in_bytes < (2 * full) mod 2 ^ 64
                        then Some histogram
                        else if int histogram_size_in_bytes > full mod 2 ^ 64
                        then CollapseHistogram g histogram full
                        else Some histogram)
                 in case collapsed of
                      None \<Rightarrow> None
                    | Some histogram' \<Rightarrow>
                        if length histogram' \<ge> 2 ^ 32 \<or> histogram' = [] then None
                        else
                          (case record_buckets g at 0 histogram' r of
                             None \<Rightarrow> None
                           | Some r' \<Rightarrow>
                               Some (if old_histogram_size mod length histogram' \<noteq> 0
                                     then Status kFailedPrecondition
                                            (HistogramNotMultiple old_histogram_size
                                               (length histogram'))
                                     else OkStatus,
                                     t\<lparr>root := Some r'\<rparr>)))))"

text \<open>
  A sufficient condition for a call of \<^verbatim>\<open>RecordAccess\<close> to return, for a node that is
  given \<open>offsets_size\<close> offsets: in the whole subtree every multiplicity is between 0
  and \<open>2 ^ 31 - 1\<close>, the number of offsets a node builds for its children stays within
  \<open>vector_max_size\<close>, and a node with children has a multiplicity of at least one, so
  that the offsets its children read \<^verbatim>\<open>back()\<close> of are not empty.
\<close>

fun offsets_defined :: "nat \<Rightarrow> Node \<Rightarrow> bool" where
  "offsets_defined offsets_size (Node ol go ac cs u) \<longleftrightarrow>
     0 \<le> multiplicity ol \<and> multiplicity ol < 2 ^ 31
     \<and> offsets_size * nat (multiplicity ol) \<le> vector_max_size
     \<and> (cs = [] \<or> 1 \<le> multiplicity ol)
     \<and> (\<forall>c \<in> set cs. offsets_defined (offsets_size * nat (multiplicity ol)) c)"

text \<open>The shape of a tree: the tree with every counter set to zero.\<close>

fun clear_counters :: "Node \<Rightarrow> Node" where
  "clear_counters (Node ol go ac cs u) = Node ol go zero_counters (map clear_counters cs) u"

subsection \<open>Descriptions of the collapsed histogram\<close>

text \<open>
  The collapse as the specification words it: \<open>m\<close> buckets, bucket \<open>i\<close> being the sum of
  the original buckets \<open>i, i + k, i + 2k, \<dots>\<close> with \<open>k = N / m\<close> and
  \<open>m = \<lceil>size / g\<rceil>\<close>.
\<close>

definition spec_CollapseHistogram :: "nat \<Rightarrow> 64 word list \<Rightarrow> int \<Rightarrow> 64 word list" where
  "spec_CollapseHistogram g histogram collapsed_size =
     (let m = nat ((collapsed_size + int g - 1) div int g);
          k = length histogram div m
      in map (\<lambda>i. sum_list (map (\<lambda>t. histogram ! (i + t * k))
                                  (filter (\<lambda>t. i + t * k < length histogram)
                                          [0..<length histogram])))
             [0..<m])"

text \<open>
  The collapse with the stride and the number of summands as separate parameters: bucket
  \<open>j\<close> is the sum of the \<open>terms\<close> original buckets \<open>j, j + stride, j + 2 stride, \<dots>\<close>.
\<close>

definition strided_sums :: "64 word list \<Rightarrow> nat \<Rightarrow> nat \<Rightarrow> nat \<Rightarrow> 64 word list" where
  "strided_sums histogram m stride terms =
     map (\<lambda>j. sum_list (map (\<lambda>i. histogram ! (j + i * stride)) [0..<terms])) [0..<m]"

section \<open>Verification of the layout\<close>

text \<open>
  \<^verbatim>\<open>Node::Verify(parent, older_sibling, verify_verbose)\<close>. The flag only controls logging
  and is left out. The three groups of checks are named; \<open>Verify_node\<close> chooses among
  them as the source does and runs the loops over the children.
\<close>

text \<open>The checks on a child of a union; the source returns after them.\<close>

definition union_child_ok :: "Node \<Rightarrow> Node option \<Rightarrow> Node \<Rightarrow> bool" where
  "union_child_ok parent older_sibling this \<longleftrightarrow>
     \<not> (GetOffsetBytes this \<noteq> 0 \<and> \<not> IsPadding this)
     \<and> (case older_sibling of
          None \<Rightarrow>
            \<not> (NumChildren parent = 1
                \<and> GetTotalAccessCount this \<noteq> GetTotalAccessCount parent)
        | Some s \<Rightarrow>
            \<not> (GetFullSizeBytes this = GetFullSizeBytes s
                \<and> GetTotalAccessCount this \<noteq> GetTotalAccessCount s))"

text \<open>The first loop over the children of a union.\<close>

definition union_children_at_zero :: "Node list \<Rightarrow> bool" where
  "union_children_at_zero cs \<longleftrightarrow>
     list_all (\<lambda>child. \<not> (GetOffsetBytes child \<noteq> 0 \<and> \<not> IsPadding child)) cs"

text \<open>
  The checks on a node that is no union and no child of a union. The two sums over the
  children are \<^verbatim>\<open>uint64_t\<close>; the sum of the sizes is compared with the \<^verbatim>\<open>int64_t\<close> size
  of the node as unsigned. A root that is not at offset 0 is only logged.
\<close>

definition plain_node_ok :: "Node option \<Rightarrow> Node option \<Rightarrow> Node \<Rightarrow> bool" where
  "plain_node_ok parent older_sibling this \<longleftrightarrow>
     (NumChildren this > 0 \<longrightarrow>
        \<not> (sum_list (map GetTotalAccessCount (children this)) < GetTotalAccessCount this)
        \<and> \<not> (sum_list (map (\<lambda>child. GetSizeBits child * GetMultiplicity child) (children this))
                mod 2 ^ 64 \<noteq> GetSizeBits this mod 2 ^ 64))
     \<and> \<not> (\<not> IsPadding this \<and> GetTypeName this = [])
     \<and> (case parent of
          None \<Rightarrow> True
        | Some p \<Rightarrow>
            \<not> (GetGlobalOffsetBits this \<noteq> GetGlobalOffsetBits p + GetOffsetBits this))
     \<and> (case older_sibling of
          None \<Rightarrow> \<not> (GetOffsetBits this \<noteq> 0)
        | Some s \<Rightarrow>
            \<not> (GetGlobalOffsetBits this \<le> GetGlobalOffsetBits s)
            \<and> \<not> (GetSizeBits s + GetOffsetBits s \<noteq> GetOffsetBits this
                  \<or> GetGlobalOffsetBits s + GetSizeBits s \<noteq> GetGlobalOffsetBits this))
     \<and> \<not> (GetSizeBits this \<le> 0)"

fun Verify_node :: "Node option \<Rightarrow> Node option \<Rightarrow> Node \<Rightarrow> bool"
and Verify_union_children :: "Node \<Rightarrow> Node option \<Rightarrow> Node list \<Rightarrow> bool"
and Verify_children :: "Node \<Rightarrow> Node option \<Rightarrow> Node list \<Rightarrow> bool"
where
  "Verify_node parent older_sibling (Node ol go ac cs u) =
     (case (case parent of None \<Rightarrow> None | Some p \<Rightarrow> if IsUnion p then Some p else None) of
        Some p \<Rightarrow> union_child_ok p older_sibling (Node ol go ac cs u)
      | None \<Rightarrow>
          if u then
            union_children_at_zero cs
            \<and> Verify_union_children (Node ol go ac cs u) older_sibling cs
          else
            plain_node_ok parent older_sibling (Node ol go ac cs u)
            \<and> Verify_children (Node ol go ac cs u) None cs)"
| "Verify_union_children this older_sibling [] = True"
| "Verify_union_children this older_sibling (child # cs) =
     (Verify_node (Some this) older_sibling child
      \<and> Verify_union_children this older_sibling cs)"
| "Verify_children this older_sibling_of_child [] = True"
| "Verify_children this older_sibling_of_child (child # cs) =
     (Verify_node (Some this) older_sibling_of_child child
      \<and> Verify_children this (Some child) cs)"

text \<open>\<^verbatim>\<open>TypeTree::Verify\<close>: the root is verified without parent and without sibling.\<close>

definition Verify :: "TypeTree \<Rightarrow> bool option" where
  "Verify t = (case root t of None \<Rightarrow> None | Some r \<Rightarrow> Some (Verify_node None None r))"

text \<open>
  The layout invariant as the specification words it, for a parent with the children
  \<open>c\<^sub>1 \<dots> c\<^sub>n\<close>: the first child is at offset 0, every later child starts where the full
  size of the previous one ends, and the full sizes add up to the size of the parent.
\<close>

fun consecutive_full :: "Node list \<Rightarrow> bool" where
  "consecutive_full (a # b # rest) \<longleftrightarrow>
     GetOffsetBits b = GetOffsetBits a + GetFullSizeBits a \<and> consecutive_full (b # rest)"
| "consecutive_full [a] \<longleftrightarrow> True"
| "consecutive_full [] \<longleftrightarrow> True"

definition spec_layout_invariant :: "Node \<Rightarrow> bool" where
  "spec_layout_invariant n \<longleftrightarrow>
     (case children n of
        [] \<Rightarrow> True
      | c1 # rest \<Rightarrow>
          GetOffsetBits c1 = 0 \<and> consecutive_full (c1 # rest)
          \<and> sum_list (map GetFullSizeBits (c1 # rest)) = GetSizeBits n)"

text \<open>
  The nodes that \<open>Verify_node\<close> checks as plain nodes: those that are no union and have no
  union among their ancestors.
\<close>

fun plain_nodes :: "Node \<Rightarrow> Node list" where
  "plain_nodes (Node ol go ac cs u) =
     (if u then [] else Node ol go ac cs u # concat (map plain_nodes cs))"

text \<open>
  The part of the layout invariant that holds of every plain node of a verified tree. The
  offset of a child is constrained when the child is no union; the step from a child to
  the next one is stated for a previous child of multiplicity one, where size and full
  size agree; the sum is the \<^verbatim>\<open>uint64_t\<close> sum of the source.
\<close>

fun consecutive_checked :: "Node list \<Rightarrow> bool" where
  "consecutive_checked (a # b # rest) \<longleftrightarrow>
     (\<not> IsUnion b \<and> GetMultiplicity a = 1
        \<longrightarrow> GetOffsetBits b = GetOffsetBits a + GetFullSizeBits a)
     \<and> consecutive_checked (b # rest)"
| "consecutive_checked [a] \<longleftrightarrow> True"
| "consecutive_checked [] \<longleftrightarrow> True"

definition verified_layout :: "Node \<Rightarrow> bool" where
  "verified_layout n \<longleftrightarrow>
     (case children n of
        [] \<Rightarrow> True
      | c1 # rest \<Rightarrow>
          (\<not> IsUnion c1 \<longrightarrow> GetOffsetBits c1 = 0) \<and> consecutive_checked (c1 # rest)
          \<and> sum_list (map GetFullSizeBits (c1 # rest)) mod 2 ^ 64 = GetSizeBits n mod 2 ^ 64)"

text \<open>The offsets that the loop over the children of a plain node checks, exactly.\<close>

fun sibling_chain :: "Node option \<Rightarrow> Node list \<Rightarrow> bool" where
  "sibling_chain older_sibling [] \<longleftrightarrow> True"
| "sibling_chain older_sibling (c # cs) \<longleftrightarrow>
     (\<not> IsUnion c \<longrightarrow>
        (case older_sibling of
           None \<Rightarrow> GetOffsetBits c = 0
         | Some s \<Rightarrow> GetOffsetBits c = GetOffsetBits s + GetSizeBits s))
     \<and> sibling_chain (Some c) cs"

section \<open>Merging counters\<close>

text \<open>\<^verbatim>\<open>std::string_view::find(c)\<close>: the first position of the character, if any.\<close>

fun find_char :: "char \<Rightarrow> string \<Rightarrow> nat option" where
  "find_char c [] = None"
| "find_char c (x # xs) =
     (if x = c then Some 0 else map_option Suc (find_char c xs))"

definition has_same_type :: "string \<Rightarrow> string \<Rightarrow> bool" where
  "has_same_type this_type other_type \<longleftrightarrow>
     this_type = other_type
     \<or> (case find_char CHR ''['' this_type of
           None \<Rightarrow> False
         | Some pos \<Rightarrow> take pos this_type = take pos other_type)"

definition add_counters :: "AccessCounters \<Rightarrow> AccessCounters \<Rightarrow> AccessCounters" where
  "add_counters c other =
     \<lparr>total = total c + total other, access = access c + access other,
      llc_miss = llc_miss c + llc_miss other\<rparr>"

text \<open>
  \<^verbatim>\<open>Node::MergeCounts(other)\<close>. The result is the status and the node as the call leaves
  it: the counters added before an error in a later child stay added. The loop reads
  child \<open>i\<close> of both nodes.
\<close>

fun MergeCounts_node :: "Node \<Rightarrow> Node \<Rightarrow> (Status \<times> Node) option"
and MergeCounts_children :: "Node list \<Rightarrow> Node list \<Rightarrow> (Status \<times> Node list) option"
where
  "MergeCounts_node (Node ol go ac cs u) other =
     (if name ol \<noteq> GetName other \<or> length cs \<noteq> NumChildren other
         \<or> \<not> has_same_type (type_name ol) (GetTypeName other)
      then Some (Status kInvalidArgument (MergeDistinctTrees (type_name ol) (GetTypeName other)),
                 Node ol go ac cs u)
      else
        (case MergeCounts_children cs (children other) of
           None \<Rightarrow> None
         | Some (st, cs') \<Rightarrow>
             Some (st, Node ol go (add_counters ac (access_counters other)) cs' u)))"
| "MergeCounts_children [] others = Some (OkStatus, [])"
| "MergeCounts_children (c # cs) [] = None"
| "MergeCounts_children (c # cs) (other # others) =
     (case MergeCounts_node c other of
        None \<Rightarrow> None
      | Some (st, c') \<Rightarrow>
          if \<not> ok st then Some (st, c' # cs)
          else
            (case MergeCounts_children cs others of
               None \<Rightarrow> None
             | Some (st', cs') \<Rightarrow> Some (st', c' # cs')))"

text \<open>\<^verbatim>\<open>TypeTree::MergeCounts(other)\<close>: both roots are dereferenced.\<close>

definition MergeCounts :: "TypeTree \<Rightarrow> TypeTree \<Rightarrow> (Status \<times> TypeTree) option" where
  "MergeCounts t other =
     (case (root t, root other) of
        (Some r, Some r_other) \<Rightarrow>
          (case MergeCounts_node r r_other of
             None \<Rightarrow> None
           | Some (st, r') \<Rightarrow> Some (st, t\<lparr>root := Some r'\<rparr>))
      | _ \<Rightarrow> None)"

section \<open>The sample store\<close>

record Frame =
  function_name :: string
  line_offset :: "64 word"
  column :: "64 word"

type_synonym CallStack = "Frame list"

text \<open>\<^verbatim>\<open>TypeTreeStore::callstack_to_type_tree_\<close>.\<close>

type_synonym TypeTreeStore = "CallStack \<rightharpoonup> TypeTree"

text \<open>
  \<^verbatim>\<open>TypeTreeStore::Insert(callstack, type_tree)\<close>. The tree argument is a
  \<^verbatim>\<open>unique_ptr\<close> and may be null. The counters of the stored tree are merged into the
  new tree, which then replaces the stored one; on an error the new tree is dropped.
\<close>

definition Insert ::
  "TypeTreeStore \<Rightarrow> CallStack \<Rightarrow> TypeTree option \<Rightarrow> (Status \<times> TypeTreeStore) option" where
  "Insert store callstack type_tree =
     (case type_tree of
        None \<Rightarrow> Some (Status kInvalidArgument TypeTreeIsNull, store)
      | Some t \<Rightarrow>
          (case store callstack of
             None \<Rightarrow> Some (OkStatus, store(callstack \<mapsto> t))
           | Some curr_type_tree \<Rightarrow>
               if Name curr_type_tree \<noteq> Name t
               then Some (Status kInvalidArgument
                            (InsertDifferentTrees (Name curr_type_tree) (Name t)), store)
               else
                 (case MergeCounts t curr_type_tree of
                    None \<Rightarrow> None
                  | Some (st, t') \<Rightarrow>
                      if \<not> ok st then Some (st, store)
                      else Some (OkStatus, store(callstack \<mapsto> t')))))"

text \<open>A function applied to the counters of every node of a tree.\<close>

fun map_counters :: "(AccessCounters \<Rightarrow> AccessCounters) \<Rightarrow> Node \<Rightarrow> Node" where
  "map_counters f (Node ol go ac cs u) = Node ol go (f ac) (map (map_counters f) cs) u"

definition twice :: "AccessCounters \<Rightarrow> AccessCounters" where
  "twice c = \<lparr>total = 2 * total c, access = 2 * access c, llc_miss = 2 * llc_miss c\<rparr>"

section \<open>Grafting a tree into a synthetic tree\<close>

definition AddChild :: "Node \<Rightarrow> Node \<Rightarrow> Node" where
  "AddChild node this =
     Node (object_layout this) (global_offset this) (access_counters this)
          (children this @ [node]) (is_union this)"

text \<open>\<^verbatim>\<open>Node::CopyNode\<close>: the copy has no children, and its union flag is the default.\<close>

definition CopyNode :: "Node \<Rightarrow> Node" where
  "CopyNode node = Node (object_layout node) (global_offset node) (access_counters node) [] False"

text \<open>
  \<^verbatim>\<open>Node::FindNodeWithTypeName(type_name)\<close>. The source returns a pointer to the node it
  finds, through which the caller then adds children to that node; here the result is the
  path to the node, the list of child positions from the node searched. The second
  function is the loop, from child \<open>i\<close> on.
\<close>

fun FindNodeWithTypeName_node :: "Node \<Rightarrow> string \<Rightarrow> Status + nat list"
and FindNodeWithTypeName_from :: "nat \<Rightarrow> Node list \<Rightarrow> string \<Rightarrow> Status + nat list"
where
  "FindNodeWithTypeName_node (Node ol go ac cs u) tn = FindNodeWithTypeName_from 0 cs tn"
| "FindNodeWithTypeName_from i [] tn = Inl (Status kNotFound (MergeNodeNotFound tn))"
| "FindNodeWithTypeName_from i (child # cs) tn =
     (if GetTypeName child = tn then Inr [i]
      else
        (case FindNodeWithTypeName_node child tn of
           Inr path \<Rightarrow> Inr (i # path)
         | Inl st \<Rightarrow> FindNodeWithTypeName_from (Suc i) cs tn))"

text \<open>The node at a path, and the tree with the node at a path replaced.\<close>

fun node_at :: "Node \<Rightarrow> nat list \<Rightarrow> Node option" where
  "node_at n [] = Some n"
| "node_at n (i # path) =
     (if i < length (children n) then node_at (children n ! i) path else None)"

fun replace_at :: "nat list \<Rightarrow> Node \<Rightarrow> Node \<Rightarrow> Node" where
  "replace_at [] new n = new"
| "replace_at (i # path) new (Node ol go ac cs u) =
     (if i < length cs then Node ol go ac (cs[i := replace_at path new (cs ! i)]) u
      else Node ol go ac cs u)"

text \<open>\<^verbatim>\<open>TypeTree::FindNodeWithTypeName\<close> dereferences the root.\<close>

definition FindNodeWithTypeName :: "TypeTree \<Rightarrow> string \<Rightarrow> (Status + nat list) option" where
  "FindNodeWithTypeName t tn =
     (case root t of None \<Rightarrow> None | Some r \<Rightarrow> Some (FindNodeWithTypeName_node r tn))"

text \<open>
  \<^verbatim>\<open>Node::MergeTreeIntoThis(other, starting_offset)\<close>: a copy of every child of \<open>other\<close>,
  with the copies of its descendants below it, is appended to the children of this node.
  The second function is the loop over the children of \<open>other\<close>.
\<close>

fun MergeTreeIntoThis_node :: "Node \<Rightarrow> int \<Rightarrow> Node \<Rightarrow> Status \<times> Node"
and MergeTreeIntoThis_loop :: "Node \<Rightarrow> int \<Rightarrow> Node list \<Rightarrow> Status \<times> Node"
where
  "MergeTreeIntoThis_node this starting_offset (Node ol go ac cs u) =
     MergeTreeIntoThis_loop this starting_offset cs"
| "MergeTreeIntoThis_loop this starting_offset [] = (OkStatus, this)"
| "MergeTreeIntoThis_loop this starting_offset (child # cs) =
     (case MergeTreeIntoThis_node (CopyNode child) starting_offset child of
        (st, child_copy) \<Rightarrow>
          if \<not> ok st then (st, this)
          else MergeTreeIntoThis_loop (AddChild child_copy this) starting_offset cs)"

text \<open>\<^verbatim>\<open>Node::BuildSizesBottomUp\<close>.\<close>

fun BuildSizesBottomUp_node :: "Node \<Rightarrow> Node" where
  "BuildSizesBottomUp_node (Node ol go ac cs u) =
     (if GetFullSizeBits (Node ol go ac (map BuildSizesBottomUp_node cs) u) = 0
      then SetSizeBits (sum_list (map GetFullSizeBits (map BuildSizesBottomUp_node cs)))
             (Node ol go ac (map BuildSizesBottomUp_node cs) u)
      else Node ol go ac (map BuildSizesBottomUp_node cs) u)"

text \<open>
  \<^verbatim>\<open>Node::InferOffsetsFromSizes\<close>. The loop carries the global offset of the node and the
  current offset; it sets both offsets of a child before it descends into the child.
\<close>

fun InferOffsetsFromSizes_node :: "Node \<Rightarrow> Node"
and InferOffsetsFromSizes_loop :: "int \<Rightarrow> int \<Rightarrow> Node list \<Rightarrow> Node list"
where
  "InferOffsetsFromSizes_node (Node ol go ac cs u) =
     Node ol go ac (InferOffsetsFromSizes_loop go 0 cs) u"
| "InferOffsetsFromSizes_loop parent_global_offset curr_offset [] = []"
| "InferOffsetsFromSizes_loop parent_global_offset curr_offset (Node ol go ac cs u # rest) =
     InferOffsetsFromSizes_node
       (Node (ol\<lparr>offset_bits := curr_offset\<rparr>) (parent_global_offset + curr_offset) ac cs u)
     # InferOffsetsFromSizes_loop parent_global_offset
         (curr_offset + size_bits ol * multiplicity ol) rest"

text \<open>The two members of \<^verbatim>\<open>TypeTree\<close>; both dereference the root.\<close>

definition BuildSizesBottomUp :: "TypeTree \<Rightarrow> TypeTree option" where
  "BuildSizesBottomUp t =
     (case root t of
        None \<Rightarrow> None
      | Some r \<Rightarrow> Some (t\<lparr>root := Some (BuildSizesBottomUp_node r)\<rparr>))"

definition InferOffsetsFromSizes :: "TypeTree \<Rightarrow> TypeTree option" where
  "InferOffsetsFromSizes t =
     (case root t of
        None \<Rightarrow> None
      | Some r \<Rightarrow>
          Some (t\<lparr>root := Some (InferOffsetsFromSizes_node
                                  (Node (object_layout r) 0 (access_counters r) (children r)
                                        (is_union r)))\<rparr>))"

text \<open>
  \<^verbatim>\<open>TypeTree::MergeTreeIntoThis(other)\<close>. The result is the status and this tree as the
  call leaves it. \<^verbatim>\<open>Empty()\<close> is the test for a null root; the search starts at the root,
  as \<^verbatim>\<open>TypeTree::FindNodeWithTypeName\<close> does.
\<close>

definition MergeTreeIntoThis :: "TypeTree \<Rightarrow> TypeTree option \<Rightarrow> (Status \<times> TypeTree) option"
  where
  "MergeTreeIntoThis this other =
     (case root this of
        None \<Rightarrow> Some (Status kInvalidArgument ThisTreeIsEmpty, this)
      | Some r \<Rightarrow>
          (case other of
             None \<Rightarrow> Some (Status kInvalidArgument OtherTreeIsNull, this)
           | Some other_tree \<Rightarrow>
               (case FindNodeWithTypeName_node r (Name other_tree) of
                  Inl st \<Rightarrow> Some (st, this)
                | Inr path \<Rightarrow>
                    (case node_at r path of
                       None \<Rightarrow> None
                     | Some merge_node \<Rightarrow>
                         if NumChildren merge_node \<noteq> 0
                         then Some (Status kInvalidArgument MergeIntoNodeWithChildren, this)
                         else
                           (case Root other_tree of
                              None \<Rightarrow> None
                            | Some other_root \<Rightarrow>
                                (case MergeTreeIntoThis_node merge_node
                                        (GetGlobalOffsetBits merge_node) other_root of
                                   (st, merge_node') \<Rightarrow>
                                     if \<not> ok st
                                     then Some (st, this\<lparr>root :=
                                                  Some (replace_at path merge_node' r)\<rparr>)
                                     else
                                       (case BuildSizesBottomUp
                                               (this\<lparr>root :=
                                                  Some (replace_at path merge_node' r)\<rparr>) of
                                          None \<Rightarrow> None
                                        | Some sized \<Rightarrow>
                                            (case InferOffsetsFromSizes sized of
                                               None \<Rightarrow> None
                                             | Some placed \<Rightarrow>
                                                 Some (OkStatus, placed)))))))))"

text \<open>The proper descendants of a node, every child before its own descendants.\<close>

fun descendants :: "Node \<Rightarrow> Node list" where
  "descendants (Node ol go ac cs u) = concat (map (\<lambda>c. c # descendants c) cs)"

section \<open>Trees from object layouts\<close>

text \<open>
  \<^verbatim>\<open>Node::CreateNodeFromObjectLayout\<close> followed by \<^verbatim>\<open>Node::CreateChildFromSuboject\<close>:
  the first argument is the global offset of the parent, if there is a parent.
\<close>

fun CreateNodeFromObjectLayout :: "int option \<Rightarrow> ObjectLayout \<Rightarrow> Node" where
  "CreateNodeFromObjectLayout parent_global_offset (ObjectLayout props subs) =
     Node props
       (case parent_global_offset of None \<Rightarrow> 0 | Some g \<Rightarrow> g + offset_bits props)
       zero_counters
       (map (CreateNodeFromObjectLayout
               (Some (case parent_global_offset of None \<Rightarrow> 0
                      | Some g \<Rightarrow> g + offset_bits props)))
            subs)
       False"

definition CreateTreeFromObjectLayout :: "ObjectLayout \<Rightarrow> string \<Rightarrow> string \<Rightarrow> TypeTree" where
  "CreateTreeFromObjectLayout layout rtn cn =
     \<lparr>root = Some (CreateNodeFromObjectLayout None layout), root_type_name = rtn,
      from_container = (cn \<noteq> []), container_name = cn\<rparr>"

section \<open>The synthetic SwissMap backing array\<close>

text \<open>
  \<^verbatim>\<open>absl::Substitute\<close> and \<^verbatim>\<open>absl::StrCat\<close> print an integer in decimal.
\<close>

definition digit_char :: "nat \<Rightarrow> char" where
  "digit_char n = ''0123456789'' ! n"

function decimal :: "nat \<Rightarrow> string" where
  "decimal n = (if n < 10 then [digit_char n] else decimal (n div 10) @ [digit_char (n mod 10)])"
  by pat_completeness auto
termination
  by (relation "measure id") auto

declare decimal.simps [simp del]

definition show_int :: "int \<Rightarrow> string" where
  "show_int i = (if i < 0 then CHR ''-'' # decimal (nat (- i)) else decimal (nat i))"

text \<open>\<^verbatim>\<open>RoundUpTo(number, multiple)\<close>; the division truncates and traps on zero.\<close>

definition RoundUpTo :: "int \<Rightarrow> int \<Rightarrow> int option" where
  "RoundUpTo number multiple =
     (if multiple = 0 then None
      else Some ((number + multiple - 1) sdiv multiple * multiple))"

text \<open>
  The templates of \<^verbatim>\<open>type_tree_container_blueprints.h\<close>, each with the arguments that
  \<^verbatim>\<open>absl::Substitute\<close> puts into it. A field that a template leaves out (the offset) has
  the default 0 of the message.
\<close>

definition template_node ::
  "string \<Rightarrow> string \<Rightarrow> ObjectKind \<Rightarrow> TypeKind \<Rightarrow> int \<Rightarrow> int \<Rightarrow> ObjectLayout list \<Rightarrow> ObjectLayout"
  where
  "template_node nm ty k tk sz mult subs =
     ObjectLayout \<lparr>name = nm, type_name = ty, offset_bits = 0, size_bits = sz,
                   multiplicity = mult, type_kind = tk, kind = k\<rparr> subs"

definition kAbslTemplatePadding :: "int \<Rightarrow> ObjectLayout" where
  "kAbslTemplatePadding padding_size =
     template_node [] [] PADDING PADDING_TYPE padding_size 1 []"

definition kAbslSwissMapTemplateStart :: "string \<Rightarrow> ObjectLayout list \<Rightarrow> ObjectLayout" where
  "kAbslSwissMapTemplateStart slot_type_name subs =
     template_node
       (''absl::container_internal::raw_hash_set::BackingArray<'' @ slot_type_name @ ''>'')
       (''absl::container_internal::raw_hash_set::BackingArray<'' @ slot_type_name @ ''>'')
       BASE RECORD_TYPE 0 1 subs"

definition kAbslSwissMapTemplateHashTableZ :: "int \<Rightarrow> ObjectLayout" where
  "kAbslSwissMapTemplateHashTableZ hashtablez_handle_size =
     template_node ''infoz_'' ''HashtablezInfoHandle'' FIELD BUILTIN_TYPE
       hashtablez_handle_size 1 []"

definition kAbslSwissMapTemplateGrowthLeft :: "int \<Rightarrow> ObjectLayout" where
  "kAbslSwissMapTemplateGrowthLeft size_t_size =
     template_node ''growth_left'' ''size_t'' FIELD BUILTIN_TYPE size_t_size 1 []"

definition kAbslSwissMapTemplateFields :: "int \<Rightarrow> int \<Rightarrow> ObjectLayout list" where
  "kAbslSwissMapTemplateFields capacity clones =
     [template_node ''ctrl'' (''ctrl_t['' @ show_int capacity @ '']'') FIELD ARRAY_TYPE 0 1
        [template_node ''[_]'' ''ctrl_t'' ARRAY_ELEMENTS BUILTIN_TYPE 8 capacity []],
      template_node ''sentinel'' ''ctrl_t'' FIELD ARRAY_TYPE 8 1 [],
      template_node ''clones'' (''ctrl_t['' @ show_int clones @ '']'') FIELD ARRAY_TYPE 0 1
        [template_node ''[_]'' ''ctrl_t'' ARRAY_ELEMENTS BUILTIN_TYPE 8 clones []]]"

definition kAbslSwissMapTemplateSlots :: "int \<Rightarrow> string \<Rightarrow> int \<Rightarrow> ObjectLayout" where
  "kAbslSwissMapTemplateSlots capacity slot_type_name slot_type_size =
     template_node ''slots'' (slot_type_name @ ''['' @ show_int capacity @ '']'') FIELD
       ARRAY_TYPE 0 1
       [template_node ''[_]'' slot_type_name ARRAY_ELEMENTS RECORD_TYPE slot_type_size
          capacity []]"

text \<open>The capacity that \<^verbatim>\<open>GetSwissMapTemplate\<close> computes first; all sizes are in bits.\<close>

definition swiss_map_capacity :: "int \<Rightarrow> int \<Rightarrow> int \<Rightarrow> int \<Rightarrow> int option" where
  "swiss_map_capacity request_size slot_type_size kWidth size_t_size =
     (if slot_type_size + 8 = 0 then None
      else Some ((request_size - (kWidth - 1) * 8 - size_t_size) sdiv (slot_type_size + 8)))"

text \<open>
  \<^verbatim>\<open>TypeTreeContainerBlueprints::GetSwissMapTemplate\<close>. The function overwrites its
  parameter \<^verbatim>\<open>has_hash_table_z\<close> with false. The text-format parser of the protobuf
  library is outside the repository: \<open>parse_ok\<close> tells whether it accepts the substituted
  template.
\<close>

definition GetSwissMapTemplate ::
  "bool \<Rightarrow> string \<Rightarrow> int \<Rightarrow> int \<Rightarrow> int \<Rightarrow> int \<Rightarrow> int \<Rightarrow> bool \<Rightarrow> int
   \<Rightarrow> (Status + ObjectLayout) option" where
  "GetSwissMapTemplate parse_ok slot_type_name slot_type_size Alignment size_t_size kWidth
     request_size has_hash_table_z_param hashtablez_handle_size =
     (let has_hash_table_z = False in
      case swiss_map_capacity request_size slot_type_size kWidth size_t_size of
        None \<Rightarrow> None
      | Some capacity \<Rightarrow>
          (let metadata_size = (if has_hash_table_z then hashtablez_handle_size else 0)
                                + size_t_size + (capacity + kWidth) * 8
           in case RoundUpTo metadata_size (Alignment * 8) of
                None \<Rightarrow> None
              | Some metadata_plus_padding \<Rightarrow>
                  (let padding_size = metadata_plus_padding - metadata_size
                   in if \<not> parse_ok then Some (Inl (Status kInternal FailedToParseTemplate))
                      else
                        Some (Inr (kAbslSwissMapTemplateStart slot_type_name
                          ((if has_hash_table_z
                            then [kAbslSwissMapTemplateHashTableZ hashtablez_handle_size]
                            else [])
                           @ [kAbslSwissMapTemplateGrowthLeft size_t_size]
                           @ kAbslSwissMapTemplateFields capacity (kWidth - 1)
                           @ (if padding_size > 0 then [kAbslTemplatePadding padding_size]
                              else [])
                           @ [kAbslSwissMapTemplateSlots capacity slot_type_name
                                slot_type_size]))))))"

text \<open>\<^verbatim>\<open>WrapType(outer_type, inner_type)\<close> of \<^verbatim>\<open>type_resolver.cc\<close>.\<close>

definition WrapType :: "string \<Rightarrow> string \<Rightarrow> string" where
  "WrapType outer_type inner_type =
     outer_type @ ''<'' @ inner_type
     @ (if inner_type \<noteq> [] \<and> last inner_type = CHR ''>'' then '' >'' else ''>'')"

text \<open>
  The SwissMap case of \<^verbatim>\<open>DwarfTypeResolver::ResolveTypeFromResolutionStrategy\<close>, from the
  point where the tree of the element type has been built (\<open>type_tree\<close>, the result of
  \<^verbatim>\<open>CreateTreeFromDwarf\<close>). \<open>is_local\<close> is \<^verbatim>\<open>IsLocalTypeResolver()\<close>, \<open>pointer_size\<close> the
  pointer size of the fetcher; alignment, group width and the width of \<^verbatim>\<open>size_t\<close> are the
  constants the source hard-codes. \<open>SwissMapOuterTree\<close> is the part up to the merge.
\<close>

definition SwissMapOuterTree :: "bool \<Rightarrow> int \<Rightarrow> int \<Rightarrow> TypeTree \<Rightarrow> (Status + TypeTree) option"
  where
  "SwissMapOuterTree parse_ok pointer_size request_size type_tree =
     (let Alignment = 8; kWidth = 16; size_t_size = 64; hashtablez_info = False;
          hashtablez_info_handle_size = pointer_size * 8
      in case Root type_tree of
           None \<Rightarrow> None
         | Some element_root \<Rightarrow>
             (case GetSwissMapTemplate parse_ok (Name type_tree) (GetFullSizeBits element_root)
                     Alignment size_t_size kWidth (request_size * 8) hashtablez_info
                     hashtablez_info_handle_size of
                None \<Rightarrow> None
              | Some (Inl st) \<Rightarrow> Some (Inl st)
              | Some (Inr template_object_layout) \<Rightarrow>
                  (case MergeTreeIntoThis
                          (CreateTreeFromObjectLayout template_object_layout
                             (WrapType ''absl::container_internal::raw_hash_set''
                                (Name type_tree))
                             ''absl::container_internal::raw_hash_set'')
                          (Some type_tree) of
                     None \<Rightarrow> None
                   | Some (st, outer_tree) \<Rightarrow>
                       if \<not> ok st then Some (Inl st) else Some (Inr outer_tree))))"

definition ResolveSwissMapBackingArray ::
  "bool \<Rightarrow> bool \<Rightarrow> int \<Rightarrow> int \<Rightarrow> TypeTree \<Rightarrow> (Status + TypeTree) option" where
  "ResolveSwissMapBackingArray is_local parse_ok pointer_size request_size type_tree =
     (if is_local then Some (Inr type_tree)
      else
        (case SwissMapOuterTree parse_ok pointer_size request_size type_tree of
           None \<Rightarrow> None
         | Some (Inl st) \<Rightarrow> Some (Inl st)
         | Some (Inr outer_tree) \<Rightarrow>
             (case Root outer_tree of
                None \<Rightarrow> None
              | Some r \<Rightarrow>
                  if (\<not> is_local \<and> request_size \<noteq> GetFullSizeBytes r)
                     \<or> (is_local \<and> request_size smod GetFullSizeBytes r \<noteq> 0)
                  then Some (Inl (Status kInternal
                                    (BackingArraySizeMismatch request_size
                                       (GetFullSizeBytes r))))
                  else Some (Inr outer_tree))))"

section \<open>Field lookup in the debug index\<close>

record FieldData =
  field_name :: string
  field_offset :: int
  field_type_name :: string
  inherited :: bool

text \<open>
  The members of \<^verbatim>\<open>TypeData\<close> that the lookup reads. \<^verbatim>\<open>offset_idx\<close> is a
  \<^verbatim>\<open>std::map\<close> from offset to a hash set of positions in \<^verbatim>\<open>fields\<close>: it is the list of its
  entries in iteration order, which is the strict order of the keys; a hash set is the
  list of its elements, without repetition.
\<close>

record TypeData =
  type_data_name :: string
  type_data_size :: int
  type_data_fields :: "FieldData list"
  offset_idx :: "(int \<times> nat list) list"

text \<open>
  \<^verbatim>\<open>DwarfMetadataFetcher::GetField(type_name, offset)\<close>. The type lookup of the fetcher
  is the parameter \<open>GetType\<close>. The entries before \<^verbatim>\<open>upper_bound(offset)\<close> are those with
  a key of at most \<open>offset\<close>; the iterator is stepped back to the last of them.
  \<^verbatim>\<open>*begin()\<close> of an empty set and a position outside \<^verbatim>\<open>fields\<close> have no defined
  result.
\<close>

definition GetField ::
  "(string \<Rightarrow> Status + TypeData) \<Rightarrow> string \<Rightarrow> int \<Rightarrow> (Status + FieldData) option" where
  "GetField GetType tn offset =
     (case GetType tn of
        Inl st \<Rightarrow> Some (Inl st)
      | Inr type_data \<Rightarrow>
          if offset < 0 \<or> offset \<ge> type_data_size type_data
          then Some (Inl (Status kInvalidArgument (InvalidOffsetValue offset)))
          else if type_data_fields type_data = [] \<or> offset_idx type_data = []
          then Some (Inl (Status kNotFound NoFieldInThisType))
          else
            (case rev (takeWhile (\<lambda>entry. fst entry \<le> offset) (offset_idx type_data)) of
               [] \<Rightarrow> Some (Inl (Status kNotFound NoSuchField))
             | it # _ \<Rightarrow>
                 if length (snd it) > 1
                 then Some (Inl (Status kNotFound (MultipleFieldsWithOffset offset)))
                 else
                   (case snd it of
                      [] \<Rightarrow> None
                    | i # _ \<Rightarrow>
                        if i < length (type_data_fields type_data)
                        then Some (Inr (type_data_fields type_data ! i)) else None)))"

section \<open>Example values\<close>

definition mk_node :: "string \<Rightarrow> string \<Rightarrow> int \<Rightarrow> int \<Rightarrow> int \<Rightarrow> int \<Rightarrow> Node list \<Rightarrow> Node" where
  "mk_node nm ty off sz mult go cs =
     Node \<lparr>name = nm, type_name = ty, offset_bits = off, size_bits = sz, multiplicity = mult,
           type_kind = RECORD_TYPE, kind = FIELD\<rparr> go zero_counters cs False"

definition mk_tree :: "string \<Rightarrow> Node \<Rightarrow> TypeTree" where
  "mk_tree nm r = \<lparr>root = Some r, root_type_name = nm, from_container = False,
                   container_name = ''''\<rparr>"

text \<open>A field of eight bytes that starts at byte 8 of its root.\<close>

definition second_long :: Node where
  "second_long = mk_node ''y'' ''long'' 64 64 1 64 []"

text \<open>A node whose accesses were all of type \<open>kAccess\<close>.\<close>

definition counted_node ::
  "string \<Rightarrow> string \<Rightarrow> int \<Rightarrow> int \<Rightarrow> int \<Rightarrow> int \<Rightarrow> 64 word \<Rightarrow> Node list \<Rightarrow> Node" where
  "counted_node nm ty off sz mult go n cs =
     Node \<lparr>name = nm, type_name = ty, offset_bits = off, size_bits = sz, multiplicity = mult,
           type_kind = RECORD_TYPE, kind = FIELD\<rparr> go \<lparr>total = n, access = n, llc_miss = 0\<rparr>
          cs False"

text \<open>\<^verbatim>\<open>struct A { long x; long y; }\<close>: sixteen bytes, two fields of eight.\<close>

definition two_longs :: Node where
  "two_longs = mk_node ''A'' ''A'' 0 128 1 0 [mk_node ''x'' ''long'' 0 64 1 0 [], second_long]"

text \<open>The record \<open>two_longs\<close> after the histogram \<open>[3, 4]\<close>.\<close>

definition two_longs_recorded :: Node where
  "two_longs_recorded =
     counted_node ''A'' ''A'' 0 128 1 0 7
       [counted_node ''x'' ''long'' 0 64 1 0 3 [], counted_node ''y'' ''long'' 64 64 1 64 4 []]"

definition example_callstack :: CallStack where
  "example_callstack = [\<lparr>function_name = ''main'', line_offset = 3, column = 7\<rparr>]"

text \<open>
  A record of eight bytes that holds a union of eight bytes; the only member of the union
  is a record whose first field starts at bit 8.
\<close>

definition shifted_fields :: Node where
  "shifted_fields =
     mk_node ''s'' ''S'' 0 64 1 0
       [mk_node ''a'' ''int'' 8 32 1 8 [], mk_node ''b'' ''int'' 32 32 1 32 []]"

definition union_holder :: Node where
  "union_holder =
     mk_node ''R'' ''R'' 0 64 1 0
       [Node \<lparr>name = ''u'', type_name = ''U'', offset_bits = 0, size_bits = 64,
              multiplicity = 1, type_kind = RECORD_TYPE, kind = FIELD\<rparr>
             0 zero_counters [shifted_fields] True]"

text \<open>
  A record of twelve bytes: two elements of four bytes each, then a field of four bytes
  that starts at bit 32, inside the second element.
\<close>

definition overlapping_siblings :: Node where
  "overlapping_siblings =
     mk_node ''P'' ''P'' 0 96 1 0
       [mk_node ''e'' ''int'' 0 32 2 0 [], mk_node ''f'' ''int'' 32 32 1 32 []]"

text \<open>
  A type of sixteen bytes with three fields: one at offset 0, two that share offset 8.
\<close>

definition pair_like :: TypeData where
  "pair_like =
     \<lparr>type_data_name = ''P'', type_data_size = 16,
      type_data_fields = [\<lparr>field_name = ''a'', field_offset = 0, field_type_name = ''long'',
                 inherited = False\<rparr>,
                \<lparr>field_name = ''b'', field_offset = 8, field_type_name = ''B'',
                 inherited = True\<rparr>,
                \<lparr>field_name = ''c'', field_offset = 8, field_type_name = ''long'',
                 inherited = False\<rparr>],
      offset_idx = [(0, [0]), (8, [1, 2])]\<rparr>"

definition only_pair_like :: "string \<Rightarrow> Status + TypeData" where
  "only_pair_like tn = (if tn = ''P'' then Inr pair_like else Inl (Status kNotFound NoMessage))"

text \<open>A tree without a root.\<close>

definition no_tree :: TypeTree where
  "no_tree = \<lparr>root = None, root_type_name = ''A'', from_container = False, container_name = []\<rparr>"

text \<open>The tree of a slot type of two bytes.\<close>

definition short_tree :: TypeTree where
  "short_tree = \<lparr>root = Some (mk_node ''short'' ''short'' 0 16 1 0 []),
                  root_type_name = ''short'', from_container = True,
                  container_name = ''absl::container_internal::raw_hash_set''\<rparr>"

section \<open>Unfolding rules for evaluation\<close>

lemmas ex_defs = pair_like_def only_pair_like_def shifted_fields_def union_holder_def overlapping_siblings_def two_longs_recorded_def example_callstack_def two_longs_def second_long_def mk_node_def mk_tree_def counted_node_def zero_counters_def
lemmas acc_defs = GetGlobalOffsetBytes_def GetFullSizeBytes_def GetSizeBytes_def GetMultiplicity_def
  GetGlobalOffsetBits_def GetTotalAccessCount_def signed_divide_int_def
lemmas rec_defs = Node_RecordAccess_def reserve_request_def vector_max_size_def count_overlaps_def
  new_array_element_offsets_def Overlap_def IncrementAccessCount_def OkStatus_def

lemmas verify_defs = Verify_def plain_node_ok_def union_child_ok_def union_children_at_zero_def
  NumChildren_def GetTotalAccessCount_def GetSizeBits_def GetMultiplicity_def GetOffsetBits_def
  GetOffsetBytes_def GetGlobalOffsetBits_def GetFullSizeBytes_def GetFullSizeBits_def
  GetTypeName_def IsPadding_def IsUnion_def signed_divide_int_def

lemma decimal_small: "n < 10 \<Longrightarrow> decimal n = [digit_char n]"
  by (simp add: decimal.simps)

lemma decimal_large: "10 \<le> n \<Longrightarrow> decimal n = decimal (n div 10) @ [digit_char (n mod 10)]"
  by (subst decimal.simps) simp

lemmas swiss_defs = SwissMapOuterTree_def GetSwissMapTemplate_def swiss_map_capacity_def
  RoundUpTo_def kAbslTemplatePadding_def kAbslSwissMapTemplateStart_def
  kAbslSwissMapTemplateGrowthLeft_def kAbslSwissMapTemplateFields_def
  kAbslSwissMapTemplateSlots_def template_node_def CreateTreeFromObjectLayout_def
  MergeTreeIntoThis_def WrapType_def show_int_def decimal_small decimal_large digit_char_def
  BuildSizesBottomUp_def InferOffsetsFromSizes_def SetSizeBits_def GetFullSizeBits_def
  GetFullSizeBytes_def GetGlobalOffsetBits_def NumChildren_def Root_def Name_def
  GetTypeName_def CopyNode_def AddChild_def short_tree_def mk_node_def zero_counters_def
  ok_def OkStatus_def signed_divide_int_def

section \<open>Attribution of one access\<close>



lemma new_offsets_nonempty:
  assumes "xs \<noteq> []" "1 \<le> GetMultiplicity n"
  shows "new_array_element_offsets xs n \<noteq> []"
proof -
  obtain k where k: "nat (GetMultiplicity n) = Suc k"
    using assms(2) by (cases "nat (GetMultiplicity n)") auto
  show ?thesis
    using assms(1) by (simp add: new_array_element_offsets_def k upt_conv_Cons)
qed

lemma length_new_array_element_offsets:
  "length (new_array_element_offsets xs n) = length xs * nat (GetMultiplicity n)"
proof -
  have "length (concat (map (\<lambda>i. map (\<lambda>x. x + int i * s) xs) [0..<k])) = length xs * k" for k s
    by (induction k) simp_all
  then show ?thesis by (simp add: new_array_element_offsets_def)
qed

lemma reserve_request_served:
  assumes "0 \<le> m" and "m < 2 ^ 31" and "len * nat m \<le> vector_max_size"
  shows "\<not> reserve_request len m > vector_max_size"
proof -
  have "m mod 2 ^ 64 = m" using assms(1,2) by simp
  moreover have "(len * nat m) mod 2 ^ 64 \<le> len * nat m" by (rule mod_less_eq_dividend)
  ultimately show ?thesis using assms(3) by (simp add: reserve_request_def)
qed

text \<open>
  A leaf of multiplicity \<open>-1\<close> and size \<open>-64\<close> bits has a full size of eight bytes, so an
  access to its first bucket passes the first test; the request to \<^verbatim>\<open>reserve\<close> is then
  \<open>2 ^ 64 - 1\<close> elements and the call does not return.
\<close>

lemma RecordAccess_node_negative_multiplicity_throws:
  "RecordAccess_node 8 kAccess 0 5 [0] (mk_node ''x'' ''long'' 0 (- 64) (- 1) 0 []) = None"
  by (simp add: mk_node_def rec_defs GetGlobalOffsetBytes_def GetFullSizeBytes_def
      GetFullSizeBits_def GetMultiplicity_def signed_divide_int_def)

lemma RecordAccess_defined:
  "offsets_defined (length xs) n \<Longrightarrow> xs \<noteq> [] \<Longrightarrow> RecordAccess_node g at off cnt xs n \<noteq> None"
  "(\<forall>c \<in> set cs. offsets_defined (length xs) c) \<Longrightarrow> xs \<noteq> [] \<Longrightarrow>
     RecordAccess_children g at off cnt xs cs \<noteq> None"
proof (induction g at off cnt xs n and g at off cnt xs cs rule: RecordAccess_node_RecordAccess_children.induct)
  case (1 g at off cnt xs ol go ac cs u)
  let ?n = "Node ol go ac cs u"
  let ?pre = "Overlap off (off + int g) (GetGlobalOffsetBytes ?n)
                (GetGlobalOffsetBytes ?n + last xs + GetFullSizeBytes ?n)"
  have served: "\<not> reserve_request (length xs) (GetMultiplicity ?n) > vector_max_size"
    using 1(2) by (intro reserve_request_served) (simp_all add: GetMultiplicity_def)
  have small: "\<not> GetMultiplicity ?n \<ge> 2 ^ 31"
    using 1(2) by (simp add: GetMultiplicity_def)
  show ?case
  proof (cases "cs = [] \<or> \<not> ?pre")
    case True
    then show ?thesis using 1(3) served small by auto
  next
    case False
    then have m: "1 \<le> GetMultiplicity ?n"
      using 1(2) by (simp add: GetMultiplicity_def)
    have ne: "new_array_element_offsets xs ?n \<noteq> []"
      using new_offsets_nonempty [OF 1(3) m] .
    have "\<forall>c \<in> set cs. offsets_defined (length (new_array_element_offsets xs ?n)) c"
      using 1(2) by (simp add: length_new_array_element_offsets GetMultiplicity_def)
    then have "RecordAccess_children g at off cnt (new_array_element_offsets xs ?n) cs \<noteq> None"
      using 1(1) 1(3) ne False served small by blast
    then show ?thesis using 1(3) served small by auto
  qed
next
  case (2 g at off cnt xs)
  show ?case by simp
next
  case (3 g at off cnt xs c cs)
  have "RecordAccess_node g at off cnt xs c \<noteq> None"
    using 3(1,3,4) by simp
  then obtain b c' where e: "RecordAccess_node g at off cnt xs c = Some (b, c')"
    by (cases "RecordAccess_node g at off cnt xs c") auto
  have "RecordAccess_children g at off cnt xs cs \<noteq> None"
    using 3(2) [OF e refl] 3(3,4) by simp
  then show ?case using e by auto
qed

lemma funpow_Increment_total:
  "total ((IncrementAccessCount at cnt ^^ k) a) = total a + of_nat k * cnt"
  by (induction k) (auto simp: IncrementAccessCount_def algebra_simps split: AccessType.splits)

lemma access_counters_RecordAccess_node:
  assumes "RecordAccess_node g at off cnt xs n = Some (b, n')"
  shows "access_counters n' =
           (if Overlap off (off + int g) (GetGlobalOffsetBytes n)
                 (GetGlobalOffsetBytes n + last xs + GetFullSizeBytes n)
            then count_overlaps g at off cnt xs n else access_counters n)"
  using assms by (cases n) (auto split: if_splits option.splits)


text \<open>
  The offsets that the recursion hands down keep the form the root starts with (\<open>[0]\<close>):
  never empty, none negative, the last one the largest, as long as the sizes are not
  negative and the multiplicities are at least one.
\<close>

lemma new_array_element_offsets_bounds:
  assumes "xs \<noteq> []" and "\<forall>x \<in> set xs. 0 \<le> x \<and> x \<le> last xs"
    and "0 \<le> GetSizeBytes n" and "1 \<le> GetMultiplicity n"
  shows "new_array_element_offsets xs n \<noteq> []
         \<and> (\<forall>y \<in> set (new_array_element_offsets xs n).
               0 \<le> y \<and> y \<le> last (new_array_element_offsets xs n))"
proof -
  let ?s = "GetSizeBytes n"
  let ?f = "\<lambda>i. map (\<lambda>x. x + int i * ?s) xs"
  obtain k where k: "nat (GetMultiplicity n) = Suc k"
    using assms(4) by (cases "nat (GetMultiplicity n)") auto
  have eq: "new_array_element_offsets xs n = concat (map ?f [0..<k]) @ ?f k"
    by (simp add: new_array_element_offsets_def k)
  have ne: "?f k \<noteq> []" using assms(1) by simp
  have l: "last (new_array_element_offsets xs n) = last xs + int k * ?s"
    using assms(1) by (simp add: eq last_map)
  have "0 \<le> y \<and> y \<le> last xs + int k * ?s" if "y \<in> set (new_array_element_offsets xs n)" for y
  proof -
    have "(\<exists>i < k. y \<in> set (?f i)) \<or> y \<in> set (?f k)"
      using that unfolding eq by auto
    then have "\<exists>i \<le> k. y \<in> set (?f i)"
    proof
      assume "\<exists>i < k. y \<in> set (?f i)"
      then obtain i where "i < k" "y \<in> set (?f i)" by blast
      then show ?thesis by (intro exI [of _ i]) simp
    next
      assume "y \<in> set (?f k)"
      then show ?thesis by (intro exI [of _ k]) simp
    qed
    then obtain i where i: "i \<le> k" "y \<in> set (?f i)" by blast
    then obtain x where ix: "i \<le> k" "x \<in> set xs" "y = x + int i * ?s" by auto
    have "int i * ?s \<le> int k * ?s" using ix(1) assms(3) by (simp add: mult_right_mono)
    moreover have "0 \<le> int i * ?s" using assms(3) by simp
    ultimately show ?thesis using assms(2) ix(2,3) by fastforce
  qed
  then show ?thesis using ne l eq by simp
qed




section \<open>Attribution of a histogram\<close>

lemma RecordAccess_node_keeps_layout:
  assumes "RecordAccess_node g at off cnt xs n = Some (b, n')"
  shows "object_layout n' = object_layout n \<and> global_offset n' = global_offset n"
  using assms by (cases n) (auto split: if_splits option.splits)

lemma root_counters_step:
  assumes "Node_RecordAccess g at off cnt r = Some (b, r')"
  shows "access_counters r' =
           (if Overlap off (off + int g) (GetGlobalOffsetBytes r)
                 (GetGlobalOffsetBytes r + GetFullSizeBytes r)
            then IncrementAccessCount at cnt (access_counters r) else access_counters r)"
  using access_counters_RecordAccess_node [of g at off cnt "[0]" r b r'] assms
  by (simp add: Node_RecordAccess_def count_overlaps_def)

lemma Overlap_inside:
  "0 \<le> off \<Longrightarrow> off + g \<le> f \<Longrightarrow> 0 < g \<Longrightarrow> Overlap off (off + g) 0 f"
  unfolding Overlap_def by (auto simp: max_def min_def)

lemma record_buckets_root_total:
  assumes "record_buckets g at i hs r = Some r'"
    and "GetGlobalOffsetBytes r = 0" and "0 < g"
    and "(int i + int (length hs)) * int g \<le> GetFullSizeBytes r"
  shows "total (access_counters r') = total (access_counters r) + sum_list hs
         \<and> object_layout r' = object_layout r \<and> global_offset r' = global_offset r"
  using assms
proof (induction hs arbitrary: i r)
  case Nil
  then show ?case by simp
next
  case (Cons h hs)
  let ?off = "int ((i * g) mod 2 ^ 32)"
  obtain b r1 where s: "Node_RecordAccess g at ?off h r = Some (b, r1)"
    and rest: "record_buckets g at (Suc i) hs r1 = Some r'"
    using Cons.prems(1) by (auto split: option.splits)
  have lay: "object_layout r1 = object_layout r \<and> global_offset r1 = global_offset r"
    using RecordAccess_node_keeps_layout s unfolding Node_RecordAccess_def by blast
  then have same: "GetGlobalOffsetBytes r1 = GetGlobalOffsetBytes r" "GetFullSizeBytes r1 = GetFullSizeBytes r"
    by (simp_all add: GetGlobalOffsetBytes_def GetFullSizeBytes_def)
  have "(i * g) mod 2 ^ 32 \<le> i * g" by (rule mod_less_eq_dividend)
  then have "?off \<le> int (i * g)" by (simp only: zle_int)
  moreover have "int (i * g) + int g \<le> GetFullSizeBytes r"
  proof -
    have "int (i * g) + int g = (int i + 1) * int g" by (simp add: algebra_simps)
    also have "\<dots> \<le> (int i + int (length (h # hs))) * int g"
      using Cons.prems(3) by (intro mult_right_mono) auto
    finally show ?thesis using Cons.prems(4) by simp
  qed
  ultimately have "Overlap ?off (?off + int g) 0 (GetFullSizeBytes r)"
    using Cons.prems(3) by (intro Overlap_inside) auto
  then have t1: "total (access_counters r1) = total (access_counters r) + h"
    using root_counters_step [OF s] Cons.prems(2)
    by (auto simp: IncrementAccessCount_def split: AccessType.splits)
  have "total (access_counters r') = total (access_counters r1) + sum_list hs
         \<and> object_layout r' = object_layout r1 \<and> global_offset r' = global_offset r1"
    using Cons.IH [OF rest] same Cons.prems(2,3,4) by (simp add: algebra_simps)
  then show ?case using t1 lay by simp
qed

lemma RecordAccess_keeps_shape:
  "RecordAccess_node g at off cnt xs n = Some (b, n') \<Longrightarrow> clear_counters n' = clear_counters n"
  "RecordAccess_children g at off cnt xs cs = Some (b, cs') \<Longrightarrow>
     map clear_counters cs' = map clear_counters cs"
proof (induction g at off cnt xs n and g at off cnt xs cs arbitrary: b n' and b cs'
       rule: RecordAccess_node_RecordAccess_children.induct)
  case (1 g at off cnt xs ol go ac cs u)
  then show ?case by (auto split: if_splits option.splits)
next
  case (2 g at off cnt xs)
  then show ?case by simp
next
  case (3 g at off cnt xs c cs)
  then show ?case by (auto split: option.splits)
qed

lemma offsets_defined_clear_counters:
  "offsets_defined k (clear_counters n) = offsets_defined k n"
  by (induction k n rule: offsets_defined.induct) auto

lemma offsets_defined_RecordAccess_node:
  "RecordAccess_node g at off cnt xs n = Some (b, n') \<Longrightarrow>
     offsets_defined k n' = offsets_defined k n"
  using RecordAccess_keeps_shape(1) offsets_defined_clear_counters by metis

lemma record_buckets_defined:
  "offsets_defined 1 r \<Longrightarrow> record_buckets g at i hs r \<noteq> None"
proof (induction hs arbitrary: i r)
  case Nil
  then show ?case by simp
next
  case (Cons h hs)
  have "Node_RecordAccess g at (int ((i * g) mod 2 ^ 32)) h r \<noteq> None"
    unfolding Node_RecordAccess_def
    using RecordAccess_defined(1) [of "[0]" r g at _ h] Cons.prems by simp
  then obtain b r1 where s: "Node_RecordAccess g at (int ((i * g) mod 2 ^ 32)) h r = Some (b, r1)"
    by fastforce
  then have "offsets_defined 1 r1"
    using offsets_defined_RecordAccess_node Cons.prems unfolding Node_RecordAccess_def by blast
  then show ?case using Cons.IH s by simp
qed

lemma RecordAccessHistogram_aligned_returns:
  assumes "root t = Some r" and "offsets_defined 1 r"
    and "H \<noteq> []" and "length H < 2 ^ 32"
    and "int (length H) * 8 = GetFullSizeBytes r"
  shows "\<exists>t'. RecordAccessHistogram 8 at H t = Some (OkStatus, t')"
proof -
  have nocollapse: "\<not> int ((length H * 8) mod 2 ^ 64) > GetFullSizeBytes r mod 2 ^ 64"
  proof -
    have "int ((length H * 8) mod 2 ^ 64) = (int (length H) * 8) mod 2 ^ 64"
      by (simp add: zmod_int)
    then show ?thesis using assms(5) by simp
  qed
  have nz: "(length H * 8) mod 2 ^ 64 \<noteq> 0"
    using assms(3,4) by simp
  obtain r' where rb: "record_buckets 8 at 0 H r = Some r'"
    using record_buckets_defined [OF assms(2), of 8 at 0 H] by fastforce
  show ?thesis
    unfolding RecordAccessHistogram_def Let_def
    using nocollapse nz rb assms(1,3,4) by (simp add: OkStatus_def)
qed

text \<open>
  Claim C1. Sum law for aligned histograms. The tree has its root at global offset 0 (every
  root is created there: \<^verbatim>\<open>CreateRootNode\<close>, \<^verbatim>\<open>CreateNodeFromObjectLayout\<close> without a
  parent, \<^verbatim>\<open>InferOffsetsFromSizes\<close>), the full size of the root is positive and equals
  eight bytes per bucket of the histogram, and the total of the root is zero before the
  call. When \<^verbatim>\<open>RecordAccessHistogram\<close> returns an OK status, the total of the root is the
  sum of the buckets, in the \<^verbatim>\<open>uint64_t\<close> arithmetic of the counters. The call does
  return OK on such a tree whenever the histogram has fewer than \<open>2 ^ 32\<close> buckets and
  \<open>offsets_defined 1\<close> holds of the root (lemma \<open>RecordAccessHistogram_aligned_returns\<close>).
\<close>

theorem RecordAccessHistogram_aligned_sum:
  assumes "root t = Some r"
    and "0 < GetFullSizeBytes r"
    and "int (length H) * 8 = GetFullSizeBytes r"
    and "GetGlobalOffsetBits r = 0"
    and "GetTotalAccessCount r = 0"
    and "RecordAccessHistogram 8 at H t = Some (OkStatus, t')"
  shows "\<exists>r'. root t' = Some r' \<and> GetTotalAccessCount r' = sum_list H"
proof -
  have g0: "GetGlobalOffsetBytes r = 0"
    using assms(4) by (simp add: GetGlobalOffsetBytes_def GetGlobalOffsetBits_def)
  have nocollapse: "\<not> int ((length H * 8) mod 2 ^ 64) > GetFullSizeBytes r mod 2 ^ 64"
  proof -
    have "int ((length H * 8) mod 2 ^ 64) = (int (length H) * 8) mod 2 ^ 64"
      by (simp add: zmod_int)
    then show ?thesis using assms(3) by simp
  qed
  obtain r' where rb: "record_buckets 8 at 0 H r = Some r'" and t': "t' = t\<lparr>root := Some r'\<rparr>"
    using assms(6) nocollapse unfolding RecordAccessHistogram_def Let_def
    by (auto simp: assms(1) OkStatus_def split: if_splits option.splits)
  have "total (access_counters r') = total (access_counters r) + sum_list H"
    using record_buckets_root_total [OF rb g0] assms(3) by simp
  then show ?thesis using t' assms(5) by (simp add: GetTotalAccessCount_def)
qed

theorem RecordAccessHistogram_aligned_sum_witness:
  "root (mk_tree ''A'' two_longs) = Some two_longs
   \<and> 0 < GetFullSizeBytes two_longs
   \<and> int (length [3, 4 :: 64 word]) * 8 = GetFullSizeBytes two_longs
   \<and> GetGlobalOffsetBits two_longs = 0
   \<and> GetTotalAccessCount two_longs = 0
   \<and> RecordAccessHistogram 8 kAccess [3, 4] (mk_tree ''A'' two_longs) =
       Some (OkStatus, mk_tree ''A'' (counted_node ''A'' ''A'' 0 128 1 0 7
               [counted_node ''x'' ''long'' 0 64 1 0 3 [], counted_node ''y'' ''long'' 64 64 1 64 4 []]))
   \<and> GetTotalAccessCount (counted_node ''A'' ''A'' 0 128 1 0 7
               [counted_node ''x'' ''long'' 0 64 1 0 3 [], counted_node ''y'' ''long'' 64 64 1 64 4 []])
       = sum_list [3, 4]"
proof -
  have e: "RecordAccessHistogram 8 kAccess [3, 4] (mk_tree ''A'' two_longs) =
       Some (OkStatus, mk_tree ''A'' (counted_node ''A'' ''A'' 0 128 1 0 7
               [counted_node ''x'' ''long'' 0 64 1 0 3 [], counted_node ''y'' ''long'' 64 64 1 64 4 []]))"
    by (simp add: ex_defs acc_defs rec_defs RecordAccessHistogram_def)
  have h: "root (mk_tree ''A'' two_longs) = Some two_longs" "0 < GetFullSizeBytes two_longs"
    "int (length [3, 4 :: 64 word]) * 8 = GetFullSizeBytes two_longs"
    "GetGlobalOffsetBits two_longs = 0" "GetTotalAccessCount two_longs = 0"
    by (simp_all add: ex_defs acc_defs)
  show ?thesis
    using RecordAccessHistogram_aligned_sum [OF h e] h e by (simp add: ex_defs acc_defs)
qed

section \<open>Collapsing a histogram\<close>

lemma inner_fold:
  "m \<le> length acc \<Longrightarrow>
   fold (\<lambda>j a. a[j := a ! j + f j]) [0..<m] acc = map (\<lambda>j. acc ! j + f j) [0..<m] @ drop m acc"
proof (induction m)
  case 0
  then show ?case by simp
next
  case (Suc m)
  then have "fold (\<lambda>j a. a[j := a ! j + f j]) [0..<Suc m] acc
        = (map (\<lambda>j. acc ! j + f j) [0..<m] @ drop m acc)[m := (map (\<lambda>j. acc ! j + f j) [0..<m] @ drop m acc) ! m + f m]"
    by simp
  also have "\<dots> = map (\<lambda>j. acc ! j + f j) [0..<m] @ (drop m acc)[0 := acc ! m + f m]"
    using Suc.prems by (simp add: list_update_append nth_append)
  also have "(drop m acc)[0 := acc ! m + f m] = (acc ! m + f m) # drop (Suc m) acc"
    using Suc.prems by (cases "drop m acc") (auto simp: drop_Suc dest: arg_cong [where f = tl] simp: tl_drop)
  finally show ?case by simp
qed

lemma inner_fold_full:
  "length acc = m \<Longrightarrow>
   fold (\<lambda>j a. a[j := a ! j + f j]) [0..<m] acc = map (\<lambda>j. acc ! j + f j) [0..<m]"
  using inner_fold [of m acc f] by simp

lemma outer_fold:
  "fold (\<lambda>i a. fold (\<lambda>j a. a[j := a ! j + (H ! (i * m + j) :: 64 word)]) [0..<m] a) [0..<k]
        (replicate m 0)
   = strided_sums H m m k"
proof (induction k)
  case 0
  then show ?case by (simp add: strided_sums_def map_replicate_trivial)
next
  case (Suc k)
  have len: "length (strided_sums H m m k) = m" by (simp add: strided_sums_def)
  show ?case
    using Suc by (simp add: inner_fold_full [OF len]) (simp add: strided_sums_def ac_simps)
qed


lemma ceil_div8:
  "0 < f \<Longrightarrow> 1 + (f - 1) sdiv 8 = (f + 7) div (8::int)"
  by (simp add: signed_divide_int_def sgn_if) presburger

lemma CollapseHistogram_strided:
  assumes "0 < f" and "length H < 2 ^ 32" and "2 * f \<le> int (length H) * 8"
  shows "CollapseHistogram 8 H f =
           Some (strided_sums H (nat ((f + 7) div 8)) (nat ((f + 7) div 8))
                   (length H div nat ((f + 7) div 8)))"
proof -
  let ?m = "nat ((f + 7) div 8)"
  have m_pos: "0 < (f + 7) div 8" using assms(1) by presburger
  have m_small: "(f + 7) div 8 < 2 ^ 32" using assms(2,3) by simp
  have n: "(1 + (f - 1) sdiv 8) mod 4294967296 = (f + 7) div 8"
    using ceil_div8 [OF assms(1)] m_pos m_small by simp
  show ?thesis
    unfolding CollapseHistogram_def Let_def
    using assms(2) m_pos by (simp add: n outer_fold del: upt_Suc)
qed

text \<open>
  Claim C2, amended. For a root of positive full size \<open>f\<close> and a histogram of \<open>N < 2 ^ 32\<close>
  buckets with \<open>8 N \<ge> 2 f\<close>, \<^verbatim>\<open>RecordAccessHistogram\<close> collapses the histogram into
  \<open>m = \<lceil>f / 8\<rceil>\<close> buckets, bucket \<open>j\<close> being the sum of the \<open>k = N div m\<close> original buckets
  \<open>j, j + m, j + 2m, \<dots>\<close> (the stride is the collapsed size \<open>m\<close>, not \<open>k\<close>), and records
  the collapsed histogram. The status is \<open>FailedPrecondition\<close> when \<open>N\<close> is not a multiple
  of \<open>m\<close> and OK otherwise; in both cases the returned tree is the recorded one.
\<close>

theorem RecordAccessHistogram_collapse_stride:
  assumes "root t = Some r"
    and "0 < GetFullSizeBytes r"
    and "length H < 2 ^ 32"
    and "2 * GetFullSizeBytes r \<le> int (length H) * 8"
  shows "RecordAccessHistogram 8 at H t =
           (let m = nat ((GetFullSizeBytes r + 7) div 8);
                k = length H div m
            in case record_buckets 8 at 0 (strided_sums H m m k) r of
                 None \<Rightarrow> None
               | Some r' \<Rightarrow>
                   Some (if length H mod m \<noteq> 0
                         then Status kFailedPrecondition (HistogramNotMultiple (length H) m)
                         else OkStatus,
                         t\<lparr>root := Some r'\<rparr>))"
proof -
  let ?f = "GetFullSizeBytes r"
  let ?m = "nat ((?f + 7) div 8)"
  have m_pos: "0 < ?m" using assms(2) by simp
  have m_small: "?m < 2 ^ 32" using assms(2,3,4) by simp
  have f_small: "?f < 2 ^ 64" "2 * ?f < 2 ^ 64" using assms(3,4) by simp_all
  have hb: "(length H * 8) mod 2 ^ 64 = length H * 8" using assms(3) by simp
  have H_pos: "0 < length H" using assms(2,4) by (cases H) auto
  have c: "CollapseHistogram 8 H ?f = Some (strided_sums H ?m ?m (length H div ?m))"
    using CollapseHistogram_strided [OF assms(2,3,4)] .
  have len: "length (strided_sums H ?m ?m (length H div ?m)) = ?m" by (simp add: strided_sums_def)
  have ne: "strided_sums H ?m ?m (length H div ?m) \<noteq> []" using len m_pos by auto
  show ?thesis
    unfolding RecordAccessHistogram_def Let_def hb
    using assms(1,2,3,4) H_pos f_small m_small ne
    by (simp add: c len split: option.splits)
qed

theorem RecordAccessHistogram_collapse_stride_witness:
  "root (mk_tree ''A'' two_longs) = Some two_longs
   \<and> 0 < GetFullSizeBytes two_longs
   \<and> length [1, 2, 3, 4, 5 :: 64 word] < 2 ^ 32
   \<and> 2 * GetFullSizeBytes two_longs \<le> int (length [1, 2, 3, 4, 5 :: 64 word]) * 8
   \<and> RecordAccessHistogram 8 kAccess [1, 2, 3, 4, 5] (mk_tree ''A'' two_longs) =
       Some (Status kFailedPrecondition (HistogramNotMultiple 5 2),
             mk_tree ''A'' (counted_node ''A'' ''A'' 0 128 1 0 10
               [counted_node ''x'' ''long'' 0 64 1 0 4 [],
                counted_node ''y'' ''long'' 64 64 1 64 6 []]))"
  using RecordAccessHistogram_collapse_stride
          [of "mk_tree ''A'' two_longs" two_longs "[1, 2, 3, 4, 5]" kAccess]
  by (simp add: ex_defs acc_defs rec_defs strided_sums_def upt_conv_Cons)

text \<open>
  The claim as stated fails on six buckets over sixteen bytes: \<open>m = 2\<close> and \<open>k = 3\<close>. The
  code sums the buckets \<open>0, 2, 4\<close> and \<open>1, 3, 5\<close>; the stride \<open>k\<close> of the claim sums the
  buckets \<open>0, 3\<close> and \<open>1, 4\<close>, and the two fields of the tree receive other counts.
\<close>

theorem RecordAccessHistogram_collapse_stride_counterexample:
  "2 * GetFullSizeBytes two_longs \<le> int (length [1, 0, 0, 10, 0, 0 :: 64 word]) * 8
   \<and> CollapseHistogram 8 [1, 0, 0, 10, 0, 0] (GetFullSizeBytes two_longs) = Some [1, 10]
   \<and> spec_CollapseHistogram 8 [1, 0, 0, 10, 0, 0] (GetFullSizeBytes two_longs) = [11, 0]
   \<and> RecordAccessHistogram 8 kAccess [1, 0, 0, 10, 0, 0] (mk_tree ''A'' two_longs) =
       Some (OkStatus,
             mk_tree ''A'' (counted_node ''A'' ''A'' 0 128 1 0 11
               [counted_node ''x'' ''long'' 0 64 1 0 1 [],
                counted_node ''y'' ''long'' 64 64 1 64 10 []]))
   \<and> record_buckets 8 kAccess 0 [11, 0] two_longs =
       Some (counted_node ''A'' ''A'' 0 128 1 0 11
               [counted_node ''x'' ''long'' 0 64 1 0 11 [],
                counted_node ''y'' ''long'' 64 64 1 64 0 []])"
proof -
  have f: "GetFullSizeBytes two_longs = 16"
    by (simp add: ex_defs acc_defs)
  have c: "CollapseHistogram 8 [1, 0, 0, 10, 0, 0] 16 = Some [1, 10]"
    using CollapseHistogram_strided [of 16 "[1, 0, 0, 10, 0, 0]"]
    by (simp add: strided_sums_def upt_conv_Cons)
  have s: "spec_CollapseHistogram 8 [1, 0, 0, 10, 0, 0] 16 = [11, 0]"
    by (simp add: spec_CollapseHistogram_def upt_conv_Cons)
  have r: "RecordAccessHistogram 8 kAccess [1, 0, 0, 10, 0, 0] (mk_tree ''A'' two_longs) =
       Some (OkStatus,
             mk_tree ''A'' (counted_node ''A'' ''A'' 0 128 1 0 11
               [counted_node ''x'' ''long'' 0 64 1 0 1 [],
                counted_node ''y'' ''long'' 64 64 1 64 10 []]))"
    unfolding RecordAccessHistogram_def Let_def
    by (simp add: f [unfolded two_longs_def second_long_def mk_node_def] c ex_defs acc_defs rec_defs
        numeral_2_eq_2 [symmetric])
  have b: "record_buckets 8 kAccess 0 [11, 0] two_longs =
       Some (counted_node ''A'' ''A'' 0 128 1 0 11
               [counted_node ''x'' ''long'' 0 64 1 0 11 [],
                counted_node ''y'' ''long'' 64 64 1 64 0 []])"
    by (simp add: ex_defs acc_defs rec_defs)
  show ?thesis using f c s r b by simp
qed

section \<open>Offsets beyond the root\<close>

text \<open>
  What \<^verbatim>\<open>TypeTree::RecordAccess\<close> does around the full size of a root at offset 0: an
  access exactly at the full size leaves the tree as it is, an access above it is recorded
  at the remainder.
\<close>

lemma RecordAccess_at_full_size_dropped:
  assumes "root t = Some r" and "GetGlobalOffsetBytes r = 0" and "0 < GetFullSizeBytes r"
  shows "RecordAccess g at (GetFullSizeBytes r) cnt t = Some (False, t)"
proof -
  have "\<not> Overlap (GetFullSizeBytes r) (GetFullSizeBytes r + int g) 0 (GetFullSizeBytes r)"
    using assms(3) by (simp add: Overlap_def)
  then have "Node_RecordAccess g at (GetFullSizeBytes r) cnt r = Some (False, r)"
    using assms(2) by (cases r) (simp add: Node_RecordAccess_def)
  moreover have "t\<lparr>root := Some r\<rparr> = t" using assms(1) by (cases t) simp
  ultimately show ?thesis using assms(1) by (simp add: RecordAccess_def)
qed

lemma RecordAccess_above_full_size_wraps:
  assumes "root t = Some r" and "0 < GetFullSizeBytes r" and "GetFullSizeBytes r < off"
  shows "RecordAccess g at off cnt t = RecordAccess g at (off mod GetFullSizeBytes r) cnt t"
proof -
  have m: "off smod GetFullSizeBytes r = off mod GetFullSizeBytes r"
    using assms(2,3) by (simp add: signed_modulo_int_def sgn_if)
  have "\<not> GetFullSizeBytes r < off mod GetFullSizeBytes r"
    using assms(2) pos_mod_bound [of "GetFullSizeBytes r" off] by linarith
  then show ?thesis using assms m by (simp add: RecordAccess_def)
qed

text \<open>
  Claim C3. \<^verbatim>\<open>TypeTree::RecordAccess\<close> is to record an offset \<open>o \<ge> full_size\<close> at
  \<open>o mod full_size\<close>. The test of the source is \<open>o > full_size\<close>: an access at
  \<open>o = full_size\<close>, the first byte of the second object of a bulk allocation, is not
  wrapped to offset 0; it overlaps no node and is dropped. On the sixteen-byte record, the
  access at offset 16 changes nothing, where the access at \<open>16 mod 16 = 0\<close> would count for
  the root and its first field; the access at offset 24 is recorded as the one at offset 8.
\<close>

theorem RecordAccess_at_full_size_not_wrapped:
  "GetFullSizeBytes two_longs = 16
   \<and> RecordAccess 8 kAccess 16 1 (mk_tree ''A'' two_longs) = Some (False, mk_tree ''A'' two_longs)
   \<and> RecordAccess 8 kAccess (16 smod 16) 1 (mk_tree ''A'' two_longs) =
       Some (True, mk_tree ''A'' (counted_node ''A'' ''A'' 0 128 1 0 1
               [counted_node ''x'' ''long'' 0 64 1 0 1 [], second_long]))
   \<and> RecordAccess 8 kAccess 24 1 (mk_tree ''A'' two_longs) =
       RecordAccess 8 kAccess 8 1 (mk_tree ''A'' two_longs)"
  by (simp add: ex_defs acc_defs rec_defs RecordAccess_def signed_modulo_int_def)

section \<open>Properties of the sample store\<close>

lemma add_counters_self: "add_counters c c = twice c"
  by (simp add: add_counters_def twice_def)

lemma MergeCounts_children_self:
  "(\<forall>c \<in> set cs. MergeCounts_node c c = Some (OkStatus, map_counters twice c)) \<Longrightarrow>
   MergeCounts_children cs cs = Some (OkStatus, map (map_counters twice) cs)"
  by (induction cs) (auto simp: ok_def OkStatus_def)

lemma MergeCounts_node_self:
  "MergeCounts_node n n = Some (OkStatus, map_counters twice n)"
  by (induction n)
     (simp add: MergeCounts_children_self has_same_type_def add_counters_self GetName_def
        NumChildren_def GetTypeName_def)

text \<open>
  Claim C7. Merge idempotence of the sample store. On a store that has no tree for the call
  stack, inserting a tree (with a root) succeeds and stores it; inserting an identical
  tree under the same call stack succeeds again, and the stored tree is then the same
  tree with the three counters of every node doubled (in \<^verbatim>\<open>uint64_t\<close> arithmetic).
\<close>

theorem Insert_twice_doubles_counters:
  assumes "store cs = None" and "root t = Some r"
  shows "Insert store cs (Some t) = Some (OkStatus, store(cs \<mapsto> t))
         \<and> Insert (store(cs \<mapsto> t)) cs (Some t) =
             Some (OkStatus, store(cs \<mapsto> t\<lparr>root := Some (map_counters twice r)\<rparr>))"
  using assms
  by (simp add: Insert_def MergeCounts_def MergeCounts_node_self ok_def OkStatus_def)

theorem Insert_twice_doubles_counters_witness:
  "(Map.empty :: TypeTreeStore) example_callstack = None
   \<and> root (mk_tree ''A'' two_longs_recorded) = Some two_longs_recorded
   \<and> Insert Map.empty example_callstack (Some (mk_tree ''A'' two_longs_recorded)) =
       Some (OkStatus, [example_callstack \<mapsto> mk_tree ''A'' two_longs_recorded])
   \<and> Insert [example_callstack \<mapsto> mk_tree ''A'' two_longs_recorded] example_callstack
         (Some (mk_tree ''A'' two_longs_recorded)) =
       Some (OkStatus,
             [example_callstack \<mapsto> mk_tree ''A''
                (counted_node ''A'' ''A'' 0 128 1 0 14
                   [counted_node ''x'' ''long'' 0 64 1 0 6 [],
                    counted_node ''y'' ''long'' 64 64 1 64 8 []])])"
  using Insert_twice_doubles_counters
          [of Map.empty example_callstack "mk_tree ''A'' two_longs_recorded" two_longs_recorded]
  by (simp add: ex_defs twice_def)

text \<open>
  Claim C8. Root-type stability of the sample store. When the store holds a tree for the
  call stack and the name of the inserted tree differs from the name of the stored one,
  \<^verbatim>\<open>Insert\<close> returns an \<open>InvalidArgument\<close> error and the store is the one before the
  call: the call stack still maps to the stored tree with its counters.
\<close>

theorem Insert_different_root_rejected:
  assumes "store cs = Some s" and "Name s \<noteq> Name t"
  shows "Insert store cs (Some t) =
           Some (Status kInvalidArgument (InsertDifferentTrees (Name s) (Name t)), store)"
  using assms by (simp add: Insert_def)

theorem Insert_different_root_rejected_witness:
  "[example_callstack \<mapsto> mk_tree ''A'' two_longs_recorded] example_callstack =
     Some (mk_tree ''A'' two_longs_recorded)
   \<and> Name (mk_tree ''A'' two_longs_recorded) \<noteq> Name (mk_tree ''long'' second_long)
   \<and> Insert [example_callstack \<mapsto> mk_tree ''A'' two_longs_recorded] example_callstack
         (Some (mk_tree ''long'' second_long)) =
       Some (Status kInvalidArgument (InsertDifferentTrees ''A'' ''long''),
             [example_callstack \<mapsto> mk_tree ''A'' two_longs_recorded])"
  using Insert_different_root_rejected
          [of "[example_callstack \<mapsto> mk_tree ''A'' two_longs_recorded]" example_callstack
              "mk_tree ''A'' two_longs_recorded" "mk_tree ''long'' second_long"]
  by (simp add: mk_tree_def Name_def)


section \<open>What verification enforces\<close>

lemma Verify_children_sibling_chain:
  "Verify_children this os cs \<Longrightarrow> \<not> IsUnion this \<Longrightarrow> sibling_chain os cs"
proof (induction cs arbitrary: os)
  case Nil
  then show ?case by simp
next
  case (Cons c cs)
  have "\<not> IsUnion c \<Longrightarrow>
          (case os of None \<Rightarrow> GetOffsetBits c = 0
           | Some s \<Rightarrow> GetOffsetBits c = GetOffsetBits s + GetSizeBits s)"
    using Cons.prems
    by (cases c) (auto simp: plain_node_ok_def IsUnion_def split: option.splits)
  then show ?case using Cons by simp
qed

lemma sibling_chain_consecutive:
  "sibling_chain os (a # rest) \<Longrightarrow> consecutive_checked (a # rest)"
proof (induction rest arbitrary: a os)
  case Nil
  then show ?case by simp
next
  case (Cons b rest)
  have "sibling_chain (Some a) (b # rest)" using Cons.prems by simp
  then have "consecutive_checked (b # rest)" by (rule Cons.IH)
  moreover have "\<not> IsUnion b \<longrightarrow> GetOffsetBits b = GetOffsetBits a + GetSizeBits a"
    using Cons.prems by simp
  ultimately show ?case
    by (simp add: GetFullSizeBits_def GetSizeBits_def GetMultiplicity_def)
qed

lemma Verify_children_each:
  "Verify_children this os cs \<Longrightarrow> c \<in> set cs \<Longrightarrow> \<exists>os'. Verify_node (Some this) os' c"
  by (induction cs arbitrary: os) auto

lemma GetFullSizeBits_eq:
  "GetFullSizeBits = (\<lambda>child. GetSizeBits child * GetMultiplicity child)"
  by (rule ext) (simp add: GetFullSizeBits_def GetSizeBits_def GetMultiplicity_def)

lemma plain_node_ok_sum:
  "plain_node_ok parent os n \<Longrightarrow> children n \<noteq> [] \<Longrightarrow>
   sum_list (map GetFullSizeBits (children n)) mod 2 ^ 64 = GetSizeBits n mod 2 ^ 64"
  by (simp add: plain_node_ok_def NumChildren_def GetFullSizeBits_eq)

lemma Verify_node_plain_nodes:
  "Verify_node parent os n \<Longrightarrow> (case parent of None \<Rightarrow> True | Some p \<Rightarrow> \<not> IsUnion p) \<Longrightarrow>
   m \<in> set (plain_nodes n) \<Longrightarrow> verified_layout m"
proof (induction n arbitrary: parent os m)
  case (Node ol go ac cs u)
  let ?node = "Node ol go ac cs u"
  have nu: "\<not> u" using Node.prems(3) by (auto split: if_splits)
  have par: "(case parent of None \<Rightarrow> None | Some p \<Rightarrow> if IsUnion p then Some p else None) = None"
    using Node.prems(2) by (auto split: option.splits)
  have ok: "plain_node_ok parent os ?node" and vc: "Verify_children ?node None cs"
    using Node.prems(1) nu par by simp_all
  have this_nu: "\<not> IsUnion ?node" using nu by (simp add: IsUnion_def)
  show ?case
  proof (cases "m = ?node")
    case True
    show ?thesis
    proof (cases cs)
      case Nil
      then show ?thesis using True by (simp add: verified_layout_def)
    next
      case (Cons c1 rest)
      have ch: "sibling_chain None (c1 # rest)"
        using Verify_children_sibling_chain [OF vc this_nu] Cons by simp
      have "consecutive_checked (c1 # rest)" using sibling_chain_consecutive [OF ch] .
      moreover have "\<not> IsUnion c1 \<longrightarrow> GetOffsetBits c1 = 0" using ch by simp
      moreover have "sum_list (map GetFullSizeBits (c1 # rest)) mod 2 ^ 64 = GetSizeBits ?node mod 2 ^ 64"
        using plain_node_ok_sum [OF ok] Cons by simp
      ultimately show ?thesis using True Cons by (simp add: verified_layout_def)
    qed
  next
    case False
    then obtain c where c: "c \<in> set cs" and m: "m \<in> set (plain_nodes c)"
      using Node.prems(3) nu by auto
    obtain os' where "Verify_node (Some ?node) os' c"
      using Verify_children_each [OF vc c] by blast
    then show ?thesis using Node.IH [OF c _ _ m] this_nu by simp
  qed
qed

text \<open>
  Claim C4, amended. \<^verbatim>\<open>Verify\<close> returns true only if every node that is no union and has
  no union among its ancestors satisfies, for its children \<open>c\<^sub>1 \<dots> c\<^sub>n\<close>: \<open>c\<^sub>1\<close> is at
  offset 0 unless it is a union; a later child that is no union starts at the offset of
  the previous child plus its full size whenever the previous child has multiplicity one;
  and the full sizes of the children add up to the size of the node, as 64-bit unsigned
  values. The source returns early on a union and on every child of a union, so the
  offset of a union and the whole subtree below a union are not checked.
\<close>

theorem Verify_enforces_checked_layout:
  assumes "Verify t = Some True"
  shows "\<exists>r. root t = Some r \<and> (\<forall>n \<in> set (plain_nodes r). verified_layout n)"
  using assms Verify_node_plain_nodes [of None None]
  by (auto simp: Verify_def split: option.splits)

theorem Verify_enforces_checked_layout_witness:
  "Verify (mk_tree ''A'' two_longs) = Some True
   \<and> plain_nodes two_longs = [two_longs, mk_node ''x'' ''long'' 0 64 1 0 [], second_long]
   \<and> verified_layout two_longs"
proof -
  have v: "Verify (mk_tree ''A'' two_longs) = Some True"
    by (simp add: ex_defs verify_defs)
  have p: "plain_nodes two_longs = [two_longs, mk_node ''x'' ''long'' 0 64 1 0 [], second_long]"
    by (simp add: ex_defs)
  show ?thesis using Verify_enforces_checked_layout [OF v] v p by (simp add: mk_tree_def)
qed

text \<open>
  The claim as stated fails: \<open>Verify\<close> accepts the record that holds a union whose member
  record has its first field at bit 8.
\<close>

theorem Verify_enforces_checked_layout_counterexample:
  "Verify (mk_tree ''R'' union_holder) = Some True
   \<and> \<not> IsUnion shifted_fields \<and> children shifted_fields \<noteq> []
   \<and> \<not> spec_layout_invariant shifted_fields"
  by (simp add: ex_defs verify_defs spec_layout_invariant_def)

text \<open>
  The check between siblings adds the size of the older sibling, not its full size: a
  field that starts inside the second element of the array before it is accepted.
\<close>

lemma Verify_accepts_overlapping_siblings:
  "Verify (mk_tree ''P'' overlapping_siblings) = Some True
   \<and> \<not> IsUnion overlapping_siblings
   \<and> \<not> spec_layout_invariant overlapping_siblings"
  by (simp add: ex_defs verify_defs spec_layout_invariant_def)

section \<open>The contract of the field lookup\<close>

lemma takeWhile_sorted_filter:
  "sorted_wrt (<) (map fst idx) \<Longrightarrow>
   takeWhile (\<lambda>entry. fst entry \<le> (offset::int)) idx = filter (\<lambda>entry. fst entry \<le> offset) idx"
proof (induction idx)
  case Nil
  then show ?case by simp
next
  case (Cons e idx)
  show ?case
  proof (cases "fst e \<le> offset")
    case True
    then show ?thesis using Cons by simp
  next
    case False
    then have "\<forall>x \<in> set idx. \<not> fst x \<le> offset" using Cons.prems by fastforce
    then have "filter (\<lambda>entry. fst entry \<le> offset) idx = []" by (simp add: filter_empty_conv)
    then show ?thesis using False by simp
  qed
qed

lemma last_entry_at_most:
  assumes "sorted_wrt (<) (map fst idx)" and "(k, v) \<in> set idx" and "k \<le> (offset::int)"
    and "\<forall>e \<in> set idx. fst e \<le> offset \<longrightarrow> fst e \<le> k"
  shows "\<exists>before. rev (takeWhile (\<lambda>entry. fst entry \<le> offset) idx) = (k, v) # before"
  using assms
proof (induction idx)
  case Nil
  then show ?case by simp
next
  case (Cons e idx)
  have e_le: "fst e \<le> offset"
  proof (cases "(k, v) = e")
    case True
    then show ?thesis using Cons.prems(3) by auto
  next
    case False
    then have "(k, v) \<in> set idx" using Cons.prems(2) by simp
    then have "fst e < k" using Cons.prems(1) by force
    then show ?thesis using Cons.prems(3) by simp
  qed
  show ?case
  proof (cases "\<exists>x \<in> set idx. fst x \<le> offset")
    case False
    then have none: "takeWhile (\<lambda>entry. fst entry \<le> offset) idx = []"
      by (cases idx) auto
    have "(k, v) = e"
    proof (rule ccontr)
      assume "(k, v) \<noteq> e"
      then have "(k, v) \<in> set idx" using Cons.prems(2) by simp
      then show False using False Cons.prems(3) by force
    qed
    then show ?thesis using e_le none by simp
  next
    case True
    then obtain x where x: "x \<in> set idx" "fst x \<le> offset" by blast
    have "fst e < fst x" using Cons.prems(1) x(1) by simp
    moreover have "fst x \<le> k" using Cons.prems(4) x by simp
    ultimately have "(k, v) \<noteq> e" by auto
    then have in_idx: "(k, v) \<in> set idx" using Cons.prems(2) by simp
    have "\<exists>before. rev (takeWhile (\<lambda>entry. fst entry \<le> offset) idx) = (k, v) # before"
      using Cons.IH in_idx Cons.prems by simp
    then show ?thesis using e_le by auto
  qed
qed

text \<open>
  Claim C6. The contract of \<^verbatim>\<open>GetField\<close>, for a type name that \<open>GetType\<close> resolves. An
  offset below 0 or not below the size of the type is rejected with \<open>InvalidArgument\<close>.
  For an offset in range, let \<open>(k, idxs)\<close> be the entry of the offset index with the
  largest key \<open>k \<le> offset\<close>. If \<open>idxs\<close> holds exactly one position \<open>i\<close> of the field
  list, the result is field \<open>i\<close>. If \<open>idxs\<close> holds more than one position, the result
  is no field but the error \<open>NotFound\<close> with the message "Multiple fields with offset".
\<close>

theorem GetField_contract:
  assumes "GetType tn = Inr td"
    and "sorted_wrt (<) (map fst (offset_idx td))"
  shows "(offset < 0 \<or> offset \<ge> type_data_size td \<longrightarrow>
            GetField GetType tn offset =
              Some (Inl (Status kInvalidArgument (InvalidOffsetValue offset))))
       \<and> (0 \<le> offset \<and> offset < type_data_size td
            \<and> (k, idxs) \<in> set (offset_idx td) \<and> k \<le> offset
            \<and> (\<forall>e \<in> set (offset_idx td). fst e \<le> offset \<longrightarrow> fst e \<le> k) \<longrightarrow>
            (idxs = [i] \<and> i < length (type_data_fields td) \<longrightarrow>
               GetField GetType tn offset = Some (Inr (type_data_fields td ! i)))
            \<and> (length idxs > 1 \<and> type_data_fields td \<noteq> [] \<longrightarrow>
               GetField GetType tn offset =
                 Some (Inl (Status kNotFound (MultipleFieldsWithOffset offset)))))"
proof -
  have a: "GetField GetType tn offset = Some (Inl (Status kInvalidArgument (InvalidOffsetValue offset)))"
    if "offset < 0 \<or> offset \<ge> type_data_size td"
    using that assms(1) by (auto simp: GetField_def)
  have b: "(idxs = [i] \<and> i < length (type_data_fields td) \<longrightarrow>
               GetField GetType tn offset = Some (Inr (type_data_fields td ! i)))
            \<and> (length idxs > 1 \<and> type_data_fields td \<noteq> [] \<longrightarrow>
               GetField GetType tn offset =
                 Some (Inl (Status kNotFound (MultipleFieldsWithOffset offset))))"
    if r: "0 \<le> offset" "offset < type_data_size td"
      and e: "(k, idxs) \<in> set (offset_idx td)" "k \<le> offset"
      and m: "\<forall>e \<in> set (offset_idx td). fst e \<le> offset \<longrightarrow> fst e \<le> k"
  proof -
    obtain before where l: "rev (takeWhile (\<lambda>entry. fst entry \<le> offset) (offset_idx td)) = (k, idxs) # before"
      using last_entry_at_most [OF assms(2) e m] by blast
    have ne: "offset_idx td \<noteq> []" using e(1) by auto
    show ?thesis using r ne l assms(1) by (auto simp: GetField_def)
  qed
  show ?thesis using a b by blast
qed

theorem GetField_contract_witness:
  "only_pair_like ''P'' = Inr pair_like
   \<and> sorted_wrt (<) (map fst (offset_idx pair_like))
   \<and> GetField only_pair_like ''P'' (-1) = Some (Inl (Status kInvalidArgument (InvalidOffsetValue (-1))))
   \<and> GetField only_pair_like ''P'' 16 = Some (Inl (Status kInvalidArgument (InvalidOffsetValue 16)))
   \<and> GetField only_pair_like ''P'' 5 = Some (Inr (type_data_fields pair_like ! 0))
   \<and> GetField only_pair_like ''P'' 12 = Some (Inl (Status kNotFound (MultipleFieldsWithOffset 12)))"
proof -
  have h: "only_pair_like ''P'' = Inr pair_like" "sorted_wrt (<) (map fst (offset_idx pair_like))"
    by (simp_all add: ex_defs)
  note inst = GetField_contract [where GetType = only_pair_like and tn = "''P''" and td = pair_like, OF h]
  show ?thesis
    using inst [where offset = "-1"] inst [where offset = 16]
      inst [where offset = 5 and k = 0 and idxs = "[0]" and i = 0]
      inst [where offset = 12 and k = 8 and idxs = "[1, 2]"] h
    by (simp add: pair_like_def)
qed

section \<open>Errors and search order of the graft\<close>

lemma find_append_cases:
  "find P (xs @ ys) = (case find P xs of None \<Rightarrow> find P ys | Some x \<Rightarrow> Some x)"
  by (induction xs) auto

lemma FindNodeWithTypeName_first_descendant:
  "(case FindNodeWithTypeName_node n tn of
      Inl st \<Rightarrow> st = Status kNotFound (MergeNodeNotFound tn)
                \<and> find (\<lambda>d. GetTypeName d = tn) (descendants n) = None
    | Inr p \<Rightarrow> \<exists>d. p \<noteq> [] \<and> node_at n p = Some d
                \<and> find (\<lambda>d. GetTypeName d = tn) (descendants n) = Some d)"
  "(case FindNodeWithTypeName_from i cs tn of
      Inl st \<Rightarrow> st = Status kNotFound (MergeNodeNotFound tn)
                \<and> find (\<lambda>d. GetTypeName d = tn) (concat (map (\<lambda>c. c # descendants c) cs)) = None
    | Inr p \<Rightarrow> \<exists>j q d. p = (i + j) # q \<and> j < length cs \<and> node_at (cs ! j) q = Some d
                \<and> find (\<lambda>d. GetTypeName d = tn) (concat (map (\<lambda>c. c # descendants c) cs))
                    = Some d)"
proof (induction n tn and i cs tn rule: FindNodeWithTypeName_node_FindNodeWithTypeName_from.induct)
  case (1 ol go ac cs u tn)
  show ?case
  proof (cases "FindNodeWithTypeName_from 0 cs tn")
    case (Inl st)
    then show ?thesis using 1 by simp
  next
    case (Inr p)
    then obtain j q d where "p = j # q" "j < length cs" "node_at (cs ! j) q = Some d"
      "find (\<lambda>d. GetTypeName d = tn) (concat (map (\<lambda>c. c # descendants c) cs)) = Some d"
      using 1 by auto
    then show ?thesis using Inr by simp
  qed
next
  case (2 i tn)
  show ?case by simp
next
  case (3 i child cs tn)
  show ?case
  proof (cases "GetTypeName child = tn")
    case True
    then show ?thesis by simp
  next
    case False
    show ?thesis
    proof (cases "FindNodeWithTypeName_node child tn")
      case (Inr path)
      then obtain d where "node_at child path = Some d"
        and "find (\<lambda>d. GetTypeName d = tn) (descendants child) = Some d"
        using 3(1) [OF False] by auto
      then have "\<exists>j q d. i # path = (i + j) # q \<and> j < length (child # cs)
                   \<and> node_at ((child # cs) ! j) q = Some d
                   \<and> find (\<lambda>d. GetTypeName d = tn)
                        (concat (map (\<lambda>c. c # descendants c) (child # cs))) = Some d"
        using False by (intro exI [of _ 0] exI [of _ path] exI [of _ d]) (simp add: find_append_cases)
      then show ?thesis using False Inr by simp
    next
      case (Inl st)
      then have none: "find (\<lambda>d. GetTypeName d = tn) (descendants child) = None"
        using 3(1) [OF False] by simp
      note ih = 3(2) [OF False Inl]
      show ?thesis
      proof (cases "FindNodeWithTypeName_from (Suc i) cs tn")
        case (Inl st')
        then show ?thesis using ih False none \<open>FindNodeWithTypeName_node child tn = Inl st\<close>
          by (simp add: find_append_cases)
      next
        case (Inr p)
        then obtain j q d where "p = (Suc i + j) # q" "j < length cs" "node_at (cs ! j) q = Some d"
          "find (\<lambda>d. GetTypeName d = tn) (concat (map (\<lambda>c. c # descendants c) cs)) = Some d"
          using ih by auto
        then have "\<exists>j q d. p = (i + j) # q \<and> j < length (child # cs)
                   \<and> node_at ((child # cs) ! j) q = Some d
                   \<and> find (\<lambda>d. GetTypeName d = tn)
                        (concat (map (\<lambda>c. c # descendants c) (child # cs))) = Some d"
          using False none
          by (intro exI [of _ "Suc j"] exI [of _ q] exI [of _ d]) (simp add: find_append_cases)
        then show ?thesis using False Inr \<open>FindNodeWithTypeName_node child tn = Inl st\<close> by simp
      qed
    qed
  qed
qed

lemma MergeTreeIntoThis_node_ok:
  "fst (MergeTreeIntoThis_node this so other) = OkStatus"
  "fst (MergeTreeIntoThis_loop this so cs) = OkStatus"
proof (induction this so other and this so cs rule: MergeTreeIntoThis_node_MergeTreeIntoThis_loop.induct)
  case (1 this so ol go ac cs u)
  then show ?case by simp
next
  case (2 this so)
  show ?case by simp
next
  case (3 this so child cs)
  obtain st child_copy where e: "MergeTreeIntoThis_node (CopyNode child) so child = (st, child_copy)"
    by (cases "MergeTreeIntoThis_node (CopyNode child) so child")
  then have "st = OkStatus" using 3(1) by simp
  then show ?case using e 3(2) [OF e [symmetric]] by (simp add: ok_def OkStatus_def)
qed

text \<open>
  Claim C10, amended. \<^verbatim>\<open>TypeTree::MergeTreeIntoThis\<close> searches the proper descendants of the
  root of the outer tree, every child before its own descendants; the root itself is never
  the merge target. It returns \<open>InvalidArgument\<close> when the outer tree is empty, when the
  other tree is null, and when the first descendant whose type name is the name of the
  other tree already has children; it returns \<open>NotFound\<close> when no proper descendant has
  that type name. In all four cases the outer tree is returned as it was. When the first
  such descendant has no children (and the other tree has a root), the search returns a
  non-empty path to it and the merge returns OK.
\<close>

theorem MergeTreeIntoThis_errors_and_search:
  "(root this = None \<longrightarrow>
      MergeTreeIntoThis this other = Some (Status kInvalidArgument ThisTreeIsEmpty, this))
   \<and> (root this = Some r \<and> other = None \<longrightarrow>
      MergeTreeIntoThis this other = Some (Status kInvalidArgument OtherTreeIsNull, this))
   \<and> (root this = Some r \<and> other = Some other_tree
        \<and> find (\<lambda>d. GetTypeName d = Name other_tree) (descendants r) = None \<longrightarrow>
      MergeTreeIntoThis this other
        = Some (Status kNotFound (MergeNodeNotFound (Name other_tree)), this))
   \<and> (root this = Some r \<and> other = Some other_tree
        \<and> find (\<lambda>d. GetTypeName d = Name other_tree) (descendants r) = Some d
        \<and> children d \<noteq> [] \<longrightarrow>
      MergeTreeIntoThis this other
        = Some (Status kInvalidArgument MergeIntoNodeWithChildren, this))
   \<and> (root this = Some r \<and> other = Some other_tree \<and> root other_tree = Some other_root
        \<and> find (\<lambda>d. GetTypeName d = Name other_tree) (descendants r) = Some d
        \<and> children d = [] \<longrightarrow>
      (\<exists>path merged.
         FindNodeWithTypeName_node r (Name other_tree) = Inr path \<and> path \<noteq> []
         \<and> node_at r path = Some d
         \<and> MergeTreeIntoThis this other = Some (OkStatus, merged)))"
proof -
  note f = FindNodeWithTypeName_first_descendant(1) [where n = r and tn = "Name other_tree"]
  have c: "MergeTreeIntoThis this other
        = Some (Status kNotFound (MergeNodeNotFound (Name other_tree)), this)"
    if "root this = Some r" "other = Some other_tree"
      "find (\<lambda>d. GetTypeName d = Name other_tree) (descendants r) = None"
    using that f by (auto simp: MergeTreeIntoThis_def split: sum.splits)
  have d: "MergeTreeIntoThis this other
        = Some (Status kInvalidArgument MergeIntoNodeWithChildren, this)"
    if "root this = Some r" "other = Some other_tree"
      "find (\<lambda>d. GetTypeName d = Name other_tree) (descendants r) = Some d"
      "children d \<noteq> []"
    using that f by (auto simp: MergeTreeIntoThis_def NumChildren_def split: sum.splits)
  have e: "\<exists>path merged.
         FindNodeWithTypeName_node r (Name other_tree) = Inr path \<and> path \<noteq> []
         \<and> node_at r path = Some d
         \<and> MergeTreeIntoThis this other = Some (OkStatus, merged)"
    if h: "root this = Some r" "other = Some other_tree" "root other_tree = Some other_root"
      "find (\<lambda>d. GetTypeName d = Name other_tree) (descendants r) = Some d"
      "children d = []"
  proof -
    obtain path where p: "FindNodeWithTypeName_node r (Name other_tree) = Inr path"
      "path \<noteq> []" "node_at r path = Some d"
      using f h(4) by (auto split: sum.splits)
    obtain st m where m: "MergeTreeIntoThis_node d (GetGlobalOffsetBits d) other_root = (st, m)"
      by (cases "MergeTreeIntoThis_node d (GetGlobalOffsetBits d) other_root")
    then have "st = OkStatus"
      using MergeTreeIntoThis_node_ok(1) [of d "GetGlobalOffsetBits d" other_root] by simp
    then have "\<exists>merged. MergeTreeIntoThis this other = Some (OkStatus, merged)"
      using h p m
      by (simp add: MergeTreeIntoThis_def NumChildren_def Root_def ok_def OkStatus_def
          BuildSizesBottomUp_def InferOffsetsFromSizes_def)
    then show ?thesis using p by blast
  qed
  show ?thesis using c d e by (auto simp: MergeTreeIntoThis_def)
qed

theorem MergeTreeIntoThis_errors_and_search_witness:
  "MergeTreeIntoThis no_tree (Some (mk_tree ''long'' second_long))
     = Some (Status kInvalidArgument ThisTreeIsEmpty, no_tree)
   \<and> MergeTreeIntoThis (mk_tree ''A'' two_longs) None
     = Some (Status kInvalidArgument OtherTreeIsNull, mk_tree ''A'' two_longs)
   \<and> MergeTreeIntoThis (mk_tree ''A'' two_longs) (Some (mk_tree ''A'' second_long))
     = Some (Status kNotFound (MergeNodeNotFound ''A''), mk_tree ''A'' two_longs)
   \<and> MergeTreeIntoThis (mk_tree ''R'' union_holder) (Some (mk_tree ''U'' second_long))
     = Some (Status kInvalidArgument MergeIntoNodeWithChildren, mk_tree ''R'' union_holder)
   \<and> (\<exists>merged. MergeTreeIntoThis (mk_tree ''A'' two_longs) (Some (mk_tree ''long'' two_longs))
     = Some (OkStatus, merged))"
  using MergeTreeIntoThis_errors_and_search [where this = no_tree and other = "Some (mk_tree ''long'' second_long)"]
    MergeTreeIntoThis_errors_and_search [where this = "mk_tree ''A'' two_longs" and other = None and r = two_longs]
    MergeTreeIntoThis_errors_and_search [where this = "mk_tree ''A'' two_longs" and other = "Some (mk_tree ''A'' second_long)"
         and r = two_longs and other_tree = "mk_tree ''A'' second_long"]
    MergeTreeIntoThis_errors_and_search [where this = "mk_tree ''R'' union_holder" and other = "Some (mk_tree ''U'' second_long)"
         and r = union_holder and other_tree = "mk_tree ''U'' second_long"
         and d = "hd (children union_holder)"]
    MergeTreeIntoThis_errors_and_search [where this = "mk_tree ''A'' two_longs" and other = "Some (mk_tree ''long'' two_longs)"
         and r = two_longs and other_tree = "mk_tree ''long'' two_longs"
         and other_root = two_longs and d = "mk_node ''x'' ''long'' 0 64 1 0 []"]
  by (simp add: ex_defs no_tree_def Name_def GetTypeName_def)

text \<open>
  The claim as stated fails where no node has the type name searched for: the status is
  \<open>NotFound\<close>, not \<open>InvalidArgument\<close>.
\<close>

theorem MergeTreeIntoThis_errors_and_search_counterexample:
  "find (\<lambda>d. GetTypeName d = ''X'') (two_longs # descendants two_longs) = None
   \<and> MergeTreeIntoThis (mk_tree ''A'' two_longs) (Some (mk_tree ''X'' second_long))
     = Some (Status kNotFound (MergeNodeNotFound ''X''), mk_tree ''A'' two_longs)
   \<and> code (Status kNotFound (MergeNodeNotFound ''X'')) \<noteq> kInvalidArgument"
  by (simp add: ex_defs MergeTreeIntoThis_def Name_def GetTypeName_def)

section \<open>Sizing of the SwissMap backing array\<close>

lemma sdiv_scale8: "(8 * a) sdiv (8 * b) = a sdiv (b::int)"
  by (simp add: signed_divide_int_def abs_mult sgn_mult)

lemma swiss_map_capacity_bytes:
  assumes "0 \<le> s_bytes"
  shows "swiss_map_capacity (R_bytes * 8) (s_bytes * 8) 16 64
           = Some ((R_bytes - (16 - 1) - 8) sdiv (s_bytes + 1))"
proof -
  have "R_bytes * 8 - (16 - 1) * 8 - 64 = 8 * (R_bytes - (16 - 1) - 8)" by simp
  moreover have "s_bytes * 8 + 8 = 8 * (s_bytes + 1)" by simp
  ultimately have "(R_bytes * 8 - (16 - 1) * 8 - 64) sdiv (s_bytes * 8 + 8)
                   = (R_bytes - (16 - 1) - 8) sdiv (s_bytes + 1)"
    by (simp only: sdiv_scale8)
  then show ?thesis using assms by (simp add: swiss_map_capacity_def)
qed

text \<open>
  Claim C5. Sizing of the synthetic SwissMap backing array, with the group width 16 and a
  counter of 64 bits. For a slot type of \<open>s_bytes \<ge> 0\<close> bytes and a request of \<open>R_bytes\<close>
  bytes the capacity is \<open>(R_bytes - 15 - 8) / (s_bytes + 1)\<close> by truncating division, 35 for
  128 bytes and slots of two bytes, and it is the multiplicity of the slots of the layout
  that \<^verbatim>\<open>GetSwissMapTemplate\<close> returns. In the resolver (not in local mode, where the
  outer layout is not built), once the outer tree is built and merged: if its full size in
  bytes differs from the requested size the result is an \<open>Internal\<close> error, and a tree
  is returned only if the two sizes are equal.
\<close>

theorem SwissMap_capacity_and_size_check:
  "(0 \<le> s_bytes \<longrightarrow>
      swiss_map_capacity (R_bytes * 8) (s_bytes * 8) 16 64
        = Some ((R_bytes - (16 - 1) - 8) sdiv (s_bytes + 1)))
   \<and> swiss_map_capacity (128 * 8) (2 * 8) 16 64 = Some 35
   \<and> (GetSwissMapTemplate True slot_type_name slot_type_size Alignment 64 16 request_bits
         hashtablez handle_size = Some (Inr layout) \<longrightarrow>
       (\<exists>capacity. swiss_map_capacity request_bits slot_type_size 16 64 = Some capacity
          \<and> subobjects layout \<noteq> []
          \<and> last (subobjects layout)
              = kAbslSwissMapTemplateSlots capacity slot_type_name slot_type_size))
   \<and> (SwissMapOuterTree parse_ok pointer_size request_size type_tree = Some (Inr outer)
        \<and> root outer = Some r \<and> request_size \<noteq> GetFullSizeBytes r \<longrightarrow>
       ResolveSwissMapBackingArray False parse_ok pointer_size request_size type_tree
         = Some (Inl (Status kInternal
                        (BackingArraySizeMismatch request_size (GetFullSizeBytes r)))))
   \<and> (ResolveSwissMapBackingArray False parse_ok pointer_size request_size type_tree
         = Some (Inr tree) \<longrightarrow>
       SwissMapOuterTree parse_ok pointer_size request_size type_tree = Some (Inr tree)
       \<and> (\<exists>r. root tree = Some r \<and> GetFullSizeBytes r = request_size))"
proof -
  have a: "0 \<le> s_bytes \<longrightarrow>
      swiss_map_capacity (R_bytes * 8) (s_bytes * 8) 16 64
        = Some ((R_bytes - (16 - 1) - 8) sdiv (s_bytes + 1))"
    using swiss_map_capacity_bytes by simp
  have b: "swiss_map_capacity (128 * 8) (2 * 8) 16 64 = Some 35"
    by (simp add: swiss_map_capacity_def signed_divide_int_def)
  have c: "\<exists>capacity. swiss_map_capacity request_bits slot_type_size 16 64 = Some capacity
          \<and> subobjects layout \<noteq> []
          \<and> last (subobjects layout)
              = kAbslSwissMapTemplateSlots capacity slot_type_name slot_type_size"
    if "GetSwissMapTemplate True slot_type_name slot_type_size Alignment 64 16 request_bits
         hashtablez handle_size = Some (Inr layout)"
    using that
    by (auto simp: GetSwissMapTemplate_def Let_def kAbslSwissMapTemplateStart_def
        template_node_def split: option.splits if_splits)
  have d: "ResolveSwissMapBackingArray False parse_ok pointer_size request_size type_tree
         = Some (Inl (Status kInternal
                        (BackingArraySizeMismatch request_size (GetFullSizeBytes r))))"
    if "SwissMapOuterTree parse_ok pointer_size request_size type_tree = Some (Inr outer)"
      "root outer = Some r" "request_size \<noteq> GetFullSizeBytes r"
    using that by (simp add: ResolveSwissMapBackingArray_def Root_def)
  have e: "SwissMapOuterTree parse_ok pointer_size request_size type_tree = Some (Inr tree)
       \<and> (\<exists>r. root tree = Some r \<and> GetFullSizeBytes r = request_size)"
    if "ResolveSwissMapBackingArray False parse_ok pointer_size request_size type_tree
         = Some (Inr tree)"
    using that
    by (auto simp: ResolveSwissMapBackingArray_def Root_def
        split: option.splits sum.splits if_splits)
  show ?thesis using a b c d e by blast
qed

lemma SwissMapOuterTree_of_128_bytes:
  "\<exists>outer r. SwissMapOuterTree True 8 128 short_tree = Some (Inr outer)
      \<and> root outer = Some r \<and> GetFullSizeBytes r = 134"
  by (simp add: swiss_defs)

theorem SwissMap_capacity_and_size_check_witness:
  "(0::int) \<le> 2
   \<and> swiss_map_capacity (128 * 8) (2 * 8) 16 64 = Some ((128 - (16 - 1) - 8) sdiv (2 + 1))
   \<and> (128 - (16 - 1) - 8) sdiv (2 + 1) = (35::int)
   \<and> ResolveSwissMapBackingArray False True 8 128 short_tree
       = Some (Inl (Status kInternal (BackingArraySizeMismatch 128 134)))
   \<and> (\<exists>tree r. ResolveSwissMapBackingArray False True 8 48 short_tree = Some (Inr tree)
         \<and> root tree = Some r \<and> GetFullSizeBytes r = 48)"
proof -
  obtain outer r where o: "SwissMapOuterTree True 8 128 short_tree = Some (Inr outer)"
    "root outer = Some r" "GetFullSizeBytes r = 134"
    using SwissMapOuterTree_of_128_bytes by blast
  have m: "ResolveSwissMapBackingArray False True 8 128 short_tree
       = Some (Inl (Status kInternal (BackingArraySizeMismatch 128 134)))"
    using SwissMap_capacity_and_size_check [where parse_ok = True and pointer_size = 8 and request_size = 128
        and type_tree = short_tree and outer = outer and r = r] o
    by simp
  obtain tree where t: "ResolveSwissMapBackingArray False True 8 48 short_tree = Some (Inr tree)"
    by (simp add: ResolveSwissMapBackingArray_def swiss_defs)
  have s: "\<exists>r. root tree = Some r \<and> GetFullSizeBytes r = 48"
    using SwissMap_capacity_and_size_check [where parse_ok = True and pointer_size = 8 and request_size = 48
        and type_tree = short_tree and tree = tree] t
    by simp
  have c: "swiss_map_capacity (128 * 8) (2 * 8) 16 64 = Some ((128 - (16 - 1) - 8) sdiv (2 + 1))"
    using SwissMap_capacity_and_size_check [where s_bytes = 2 and R_bytes = 128] by simp
  have n: "(128 - (16 - 1) - 8) sdiv (2 + 1) = (35::int)"
    by (simp add: signed_divide_int_def)
  show ?thesis using m t s c n by auto
qed

end
